theory Spec2Isabelle
  imports Main
begin

section \<open>Python values and library calls\<close>

text \<open>
  The tracker is a sequential Python program. Calls that leave the program (the screen
  grab, the window lookup, the two remote models) are given by what they answer: a call
  either raises, with the text of the exception, or returns a value.
\<close>

datatype 'a outcome = Raises string | Returns 'a

text \<open>
  A value stored under a key of a parsed response: a \<open>str\<close>, or any other value, kept as
  the text that \<open>str()\<close> gives for it (what the CSV writer puts in the cell).
\<close>

datatype pyval = PStr string | POther string

text \<open>
  What \<open>analyze_screenshot\<close> can hand to the loop besides \<open>None\<close>: only values that support
  \<open>k in value\<close> pass its key check, so a dict, a list or a str.
\<close>

datatype pyobj = PyDict "(string \<times> pyval) list" | PyList "pyval list" | PyText string

type_synonym instant = nat

text \<open>\<open>s.startswith(p)\<close> and \<open>p in s\<close> on strings.\<close>

fun startswith :: "string \<Rightarrow> string \<Rightarrow> bool" where
  "startswith s [] = True"
| "startswith [] (p # ps) = False"
| "startswith (c # s) (p # ps) = (c = p \<and> startswith s ps)"

fun contains :: "string \<Rightarrow> string \<Rightarrow> bool" where
  "contains [] p = (p = [])"
| "contains (c # s) p = (startswith (c # s) p \<or> contains s p)"

text \<open>Truth value of an object (\<open>if analysis_result:\<close>): an empty container is false.\<close>

fun truthy :: "pyobj \<Rightarrow> bool" where
  "truthy (PyDict d) = (d \<noteq> [])"
| "truthy (PyList l) = (l \<noteq> [])"
| "truthy (PyText s) = (s \<noteq> [])"

text \<open>\<open>k in obj\<close>: a key of a dict, an element of a list, a substring of a str.\<close>

fun has_key :: "pyobj \<Rightarrow> string \<Rightarrow> bool" where
  "has_key (PyDict d) k = (k \<in> set (map fst d))"
| "has_key (PyList l) k = (PStr k \<in> set l)"
| "has_key (PyText s) k = contains s k"

text \<open>\<open>d.get(k, default)\<close> on a dict.\<close>

definition dict_get :: "(string \<times> pyval) list \<Rightarrow> string \<Rightarrow> pyval \<Rightarrow> pyval" where
  "dict_get d k dflt = (case map_of d k of Some v \<Rightarrow> v | None \<Rightarrow> dflt)"

text \<open>The text of the \<open>AttributeError\<close> that \<open>obj.get\<close> raises on a list or a str.\<close>

fun no_attribute_get :: "pyobj \<Rightarrow> string" where
  "no_attribute_get (PyList l) = [CHR 0x27] @ ''list'' @ [CHR 0x27] @ '' object has no attribute '' @ [CHR 0x27] @ ''get'' @ [CHR 0x27]"
| "no_attribute_get (PyText s) = [CHR 0x27] @ ''str'' @ [CHR 0x27] @ '' object has no attribute '' @ [CHR 0x27] @ ''get'' @ [CHR 0x27]"
| "no_attribute_get (PyDict d) = []"

text \<open>
  Library functions whose results the program only passes on:
  \<^item> \<open>str_of_datetime\<close>: \<open>str(datetime)\<close>, as the CSV writer renders an instant;
  \<^item> \<open>to_datetime\<close>: the instant that \<open>pd.to_datetime\<close> reads from one text, \<open>None\<close> when
    the text is no date;
  \<^item> \<open>one_format\<close>: whether \<open>pd.to_datetime\<close> accepts these texts as one column. Since
    pandas 2 it takes the format of the first text for the whole column, so texts with and
    without microseconds do not go together; before, every column of dates was accepted;
  \<^item> \<open>na_marker\<close>: the reader's markers for a missing value other than the empty cell;
  \<^item> \<open>literal\<close>: the texts that \<open>pd.read_csv\<close> can read as a number or a boolean;
  \<^item> \<open>json_loads\<close>: \<open>json.loads\<close> (\<open>None\<close> is \<open>JSONDecodeError\<close>; \<open>Some None\<close> a value that
    supports no \<open>in\<close>: a number, a boolean or \<open>null\<close>).
\<close>

record pylib =
  str_of_datetime :: "instant \<Rightarrow> string"
  to_datetime :: "string \<Rightarrow> instant option"
  one_format :: "string list \<Rightarrow> bool"
  na_marker :: "string \<Rightarrow> bool"
  literal :: "string \<Rightarrow> bool"
  json_loads :: "string \<Rightarrow> pyobj option option"

text \<open>\<open>os.path.basename\<close> (posixpath): what follows the last slash.\<close>

definition basename :: "string \<Rightarrow> string" where
  "basename p = rev (takeWhile (\<lambda>c. c \<noteq> CHR ''/'') (rev p))"

section \<open>The activity store (data_storage.py)\<close>

text \<open>
  The log file is either absent or a sequence of lines, each a sequence of cells; the
  quoting of commas inside a cell is the CSV library's and is not modelled. The first line
  of a file is what the reader takes as the header.
\<close>

datatype csv_file = Missing | Lines "string list list"

definition columns_expected :: "string list" where
  "columns_expected = [''Timestamp'', ''AppName'', ''CrispDescription'', ''MainTopic'',
     ''ShortDescription'', ''ScreenshotFile'']"

fun cell_text :: "pyval \<Rightarrow> string" where
  "cell_text (PStr s) = s"
| "cell_text (POther t) = t"

text \<open>
  \<open>[os.path.basename(screenshot_path) if screenshot_path else None]\<close>: an absent or empty
  path is \<open>None\<close>, which the writer renders as the empty cell.
\<close>

definition screenshot_cell :: "string option \<Rightarrow> string" where
  "screenshot_cell screenshot_path =
     (case screenshot_path of
        None \<Rightarrow> []
      | Some p \<Rightarrow> if p \<noteq> [] then basename p else [])"

definition activity_row ::
  "pylib \<Rightarrow> instant \<Rightarrow> string \<Rightarrow> pyval \<Rightarrow> pyval \<Rightarrow> pyval \<Rightarrow> string option \<Rightarrow> string list" where
  "activity_row L timestamp app_name crisp_desc main_topic short_desc screenshot_path =
     [str_of_datetime L timestamp, app_name, cell_text crisp_desc, cell_text main_topic,
      cell_text short_desc, screenshot_cell screenshot_path]"

text \<open>
  \<open>save_activity\<close>: a new file gets the header and the row, an existing one the row only
  (\<open>file_exists = os.path.isfile(DATA_FILE)\<close>). \<open>written\<close> says whether \<open>to_csv\<close> went
  through; when it raises, the function logs and returns, and the file is taken to be as
  it was. Creating the data directory is taken to succeed.
\<close>

definition save_activity ::
  "pylib \<Rightarrow> bool \<Rightarrow> instant \<Rightarrow> string \<Rightarrow> pyval \<Rightarrow> pyval \<Rightarrow> pyval \<Rightarrow> string option \<Rightarrow> csv_file \<Rightarrow> csv_file" where
  "save_activity L written timestamp app_name crisp_desc main_topic short_desc screenshot_path file =
     (let row = activity_row L timestamp app_name crisp_desc main_topic short_desc screenshot_path
      in if \<not> written then file
         else (case file of
                 Missing \<Rightarrow> Lines [columns_expected, row]
               | Lines ls \<Rightarrow> Lines (ls @ [row])))"

section \<open>The tracking loop (main.py)\<close>

text \<open>
  What one iteration meets: the configured \<open>MAX_RETRIES\<close>, the clock, the window lookup,
  the answer of \<open>take_screenshot\<close> and of \<open>analyze_screenshot\<close> at each attempt (each
  loop calls once per attempt), and whether the CSV write goes through. Sleeping and
  logging change nothing that is modelled.
\<close>

record env =
  MAX_RETRIES :: int
  now :: instant
  get_active_window_title :: "string outcome"
  take_screenshot :: "nat \<Rightarrow> string option outcome"
  analyze_screenshot :: "nat \<Rightarrow> pyobj option outcome"
  csv_written :: bool

text \<open>
  The variables of \<open>run_tracker_iteration\<close> that change, the log file, and how many times
  each external call and \<open>save_activity\<close> were called.
\<close>

record tracker =
  data_file :: csv_file
  screenshot_path :: "string option"
  analysis_result :: "pyobj option"
  shots_taken :: nat
  analyses_run :: nat
  saves_called :: nat

text \<open>\<open>range(MAX_RETRIES)\<close>: empty when the setting is zero or negative.\<close>

definition attempts :: "int \<Rightarrow> nat list" where
  "attempts n = [0 ..< nat n]"

text \<open>\<open>if screenshot_path:\<close>\<close>

fun path_ok :: "string option \<Rightarrow> bool" where
  "path_ok None = False"
| "path_ok (Some p) = (p \<noteq> [])"

text \<open>
  Step 2, lines 49-63: the first attempt that returns a path ends the loop; a \<open>None\<close> and
  an exception both go on to the next attempt.
\<close>

fun capture_loop :: "env \<Rightarrow> nat list \<Rightarrow> tracker \<Rightarrow> tracker" where
  "capture_loop E [] st = st"
| "capture_loop E (attempt # rest) st =
     (case take_screenshot E attempt of
        Returns p \<Rightarrow>
          (let st' = st\<lparr>screenshot_path := p, shots_taken := Suc (shots_taken st)\<rparr>
           in if path_ok p then st' else capture_loop E rest st')
      | Raises e \<Rightarrow> capture_loop E rest (st\<lparr>shots_taken := Suc (shots_taken st)\<rparr>))"

text \<open>
  Lines 94-101, the handler of an exception raised anywhere in an analysis attempt: before
  the last attempt it sleeps; on the last attempt it writes the \<open>Analysis Failed\<close> record
  and clears the result.
\<close>

definition analysis_except :: "pylib \<Rightarrow> env \<Rightarrow> string \<Rightarrow> nat \<Rightarrow> string \<Rightarrow> tracker \<Rightarrow> tracker" where
  "analysis_except L E active_window attempt e st =
     (if int attempt < MAX_RETRIES E - 1 then st
      else st\<lparr>data_file :=
                 save_activity L (csv_written E) (now E) active_window (PStr ''Analysis Failed'')
                   (PStr ''Error'') (PStr (''Exception during analysis: '' @ e))
                   (screenshot_path st) (data_file st),
              saves_called := Suc (saves_called st),
              analysis_result := None\<rparr>)"

text \<open>
  Lines 85-86: the \<open>Analysis Error\<close> record, written from an error dict.
\<close>

definition record_analysis_error :: "pylib \<Rightarrow> env \<Rightarrow> string \<Rightarrow> (string \<times> pyval) list \<Rightarrow> tracker \<Rightarrow> tracker" where
  "record_analysis_error L E active_window d st =
     st\<lparr>data_file :=
          save_activity L (csv_written E) (now E) active_window (PStr ''Analysis Error'')
            (PStr ''Error'') (dict_get d ''raw_content'' (PStr ''Analysis failed''))
            (screenshot_path st) (data_file st),
        saves_called := Suc (saves_called st),
        analysis_result := None\<rparr>"

text \<open>
  Step 3, lines 72-101. A result that is false (\<open>None\<close>) goes on to the next attempt. A
  result with an \<open>error\<close> key is retried when the error is \<open>JSONDecodeError\<close> and an attempt
  is left, and recorded otherwise, which ends the loop; \<open>.get\<close> on a result that is not a
  dict raises into the handler. A result without the key ends the loop.
\<close>

fun analysis_loop :: "pylib \<Rightarrow> env \<Rightarrow> string \<Rightarrow> nat list \<Rightarrow> tracker \<Rightarrow> tracker" where
  "analysis_loop L E active_window [] st = st"
| "analysis_loop L E active_window (attempt # rest) st =
     (case analyze_screenshot E attempt of
        Raises e \<Rightarrow>
          analysis_loop L E active_window rest
            (analysis_except L E active_window attempt e (st\<lparr>analyses_run := Suc (analyses_run st)\<rparr>))
      | Returns r \<Rightarrow>
          (let st' = st\<lparr>analysis_result := r, analyses_run := Suc (analyses_run st)\<rparr>
           in case r of
                None \<Rightarrow> analysis_loop L E active_window rest st'
              | Some obj \<Rightarrow>
                  if \<not> truthy obj then analysis_loop L E active_window rest st'
                  else if has_key obj ''error'' then
                    (case obj of
                       PyDict d \<Rightarrow>
                         if map_of d ''error'' = Some (PStr ''JSONDecodeError'')
                            \<and> int attempt < MAX_RETRIES E - 1
                         then analysis_loop L E active_window rest st'
                         else record_analysis_error L E active_window d st'
                     | _ \<Rightarrow>
                         analysis_loop L E active_window rest
                           (analysis_except L E active_window attempt (no_attribute_get obj) st'))
                  else st'))"

text \<open>
  Step 4, lines 104-119: a result without an \<open>error\<close> key is saved; \<open>.get\<close> on a result that
  is not a dict raises inside the \<open>try\<close> and is only logged.
\<close>

definition save_phase :: "pylib \<Rightarrow> env \<Rightarrow> string \<Rightarrow> tracker \<Rightarrow> tracker" where
  "save_phase L E active_window st =
     (case analysis_result st of
        None \<Rightarrow> st
      | Some obj \<Rightarrow>
          if truthy obj \<and> \<not> has_key obj ''error'' then
            (case obj of
               PyDict d \<Rightarrow>
                 st\<lparr>data_file :=
                      save_activity L (csv_written E) (now E) active_window
                        (dict_get d ''crisp_description'' (PStr ''N/A''))
                        (dict_get d ''main_topic'' (PStr ''N/A''))
                        (dict_get d ''short_description'' (PStr ''N/A''))
                        (screenshot_path st) (data_file st),
                    saves_called := Suc (saves_called st)\<rparr>
             | _ \<Rightarrow> st)
          else st)"

text \<open>Step 1, lines 38-46: the window title, or \<open>Unknown\<close> when the lookup raises.\<close>

definition window_title :: "env \<Rightarrow> string" where
  "window_title E = (case get_active_window_title E of Returns t \<Rightarrow> t | Raises e \<Rightarrow> ''Unknown'')"

definition start :: "csv_file \<Rightarrow> tracker" where
  "start file = \<lparr>data_file = file, screenshot_path = None, analysis_result = None,
     shots_taken = 0, analyses_run = 0, saves_called = 0\<rparr>"

definition run_tracker_iteration :: "pylib \<Rightarrow> env \<Rightarrow> csv_file \<Rightarrow> tracker" where
  "run_tracker_iteration L E file =
     (let active_window = window_title E;
          st = capture_loop E (attempts (MAX_RETRIES E)) (start file)
      in if \<not> path_ok (screenshot_path st) then st
         else save_phase L E active_window
                (analysis_loop L E active_window (attempts (MAX_RETRIES E)) st))"

section \<open>Loading the log (data_storage.py)\<close>

text \<open>
  A loaded frame: its column names and its rows. A cell is
  \<^item> \<open>NaN\<close>: missing (\<open>NaN\<close>, \<open>NaT\<close>);
  \<^item> \<open>Text s\<close>: the str \<open>s\<close>, read from a text that is no number or boolean literal (a
    column that holds such a text is a column of strs);
  \<^item> \<open>Inferred s\<close>: read from the literal \<open>s\<close>. The reader infers the type of a column from
    all its cells, so the value is the number or boolean that \<open>s\<close> denotes when the other
    cells of the column are literals of that kind too, and the str \<open>s\<close> otherwise; which of
    the two is not modelled;
  \<^item> \<open>Instant t\<close>: an instant, once the \<open>Timestamp\<close> column has been converted.
\<close>

datatype cell = NaN | Text string | Inferred string | Instant instant

record frame =
  columns :: "string list"
  rows :: "cell list list"

datatype load_error = EmptyDataError | ParserError | KeyError | DateParseError

text \<open>
  \<open>pd.DataFrame(columns=[...])\<close>, returned for a missing file and from both \<open>except\<close>
  branches.
\<close>

definition empty_frame :: frame where
  "empty_frame = \<lparr>columns = columns_expected, rows = []\<rparr>"

text \<open>An empty cell and the reader's other markers are read as missing.\<close>

definition read_cell :: "pylib \<Rightarrow> string \<Rightarrow> cell" where
  "read_cell L s =
     (if s = [] \<or> na_marker L s then NaN
      else if literal L s then Inferred s
      else Text s)"

text \<open>
  \<open>pd.read_csv\<close>: no line at all raises \<open>EmptyDataError\<close>; the first line is the header; a
  line with more cells than the header raises (\<open>on_bad_lines='error'\<close>), one with fewer is
  filled with missing cells.
\<close>

definition read_csv :: "pylib \<Rightarrow> string list list \<Rightarrow> load_error + frame" where
  "read_csv L ls =
     (case ls of
        [] \<Rightarrow> Inl EmptyDataError
      | h # body \<Rightarrow>
          if list_ex (\<lambda>r. length h < length r) body then Inl ParserError
          else Inr \<lparr>columns = h,
                    rows = map (\<lambda>r. map (read_cell L) r @ replicate (length h - length r) NaN) body\<rparr>)"

fun index_of :: "string list \<Rightarrow> string \<Rightarrow> nat option" where
  "index_of [] k = None"
| "index_of (c # cs) k = (if c = k then Some 0 else map_option Suc (index_of cs k))"

text \<open>
  \<open>pd.to_datetime(column)\<close> with its default \<open>errors='raise'\<close>: a missing cell stays
  missing, a cell is converted from its text, and the first text that is no date raises
  for the whole column. The texts of the column must also go together (\<open>one_format\<close>):
  otherwise the call raises as well. A literal is converted from its text, as it is in a
  column that holds a date; the statements below are about logs whose timestamps are no
  literals.
\<close>

fun convert_cell :: "pylib \<Rightarrow> cell \<Rightarrow> load_error + cell" where
  "convert_cell L NaN = Inr NaN"
| "convert_cell L (Instant t) = Inr (Instant t)"
| "convert_cell L (Text s) =
     (case to_datetime L s of None \<Rightarrow> Inl DateParseError | Some t \<Rightarrow> Inr (Instant t))"
| "convert_cell L (Inferred s) =
     (case to_datetime L s of None \<Rightarrow> Inl DateParseError | Some t \<Rightarrow> Inr (Instant t))"

fun cell_source :: "cell \<Rightarrow> string option" where
  "cell_source (Text s) = Some s"
| "cell_source (Inferred s) = Some s"
| "cell_source NaN = None"
| "cell_source (Instant t) = None"

definition column_texts :: "nat \<Rightarrow> cell list list \<Rightarrow> string list" where
  "column_texts i rs = List.map_filter (\<lambda>r. if i < length r then cell_source (r ! i) else None) rs"

definition formats_agree :: "pylib \<Rightarrow> string list \<Rightarrow> bool" where
  "formats_agree L texts = (texts = [] \<or> one_format L texts)"

fun convert_column :: "pylib \<Rightarrow> nat \<Rightarrow> cell list list \<Rightarrow> load_error + cell list list" where
  "convert_column L i [] = Inr []"
| "convert_column L i (r # rs) =
     (case convert_cell L (if i < length r then r ! i else NaN) of
        Inl e \<Rightarrow> Inl e
      | Inr c \<Rightarrow>
          (case convert_column L i rs of
             Inl e \<Rightarrow> Inl e
           | Inr rs' \<Rightarrow> Inr (r[i := c] # rs')))"

text \<open>
  The body of the \<open>try\<close> in \<open>load_activity_data\<close>, lines 48-52: read the file, then
  \<open>df['Timestamp'] = pd.to_datetime(df['Timestamp'])\<close> (\<open>KeyError\<close> without such a column).
\<close>

definition read_and_convert :: "pylib \<Rightarrow> string list list \<Rightarrow> load_error + frame" where
  "read_and_convert L ls =
     (case read_csv L ls of
        Inl e \<Rightarrow> Inl e
      | Inr df \<Rightarrow>
          (case index_of (columns df) ''Timestamp'' of
             None \<Rightarrow> Inl KeyError
           | Some i \<Rightarrow>
               (case convert_column L i (rows df) of
                  Inl e \<Rightarrow> Inl e
                | Inr rs \<Rightarrow>
                    if formats_agree L (column_texts i (rows df)) then Inr (df\<lparr>rows := rs\<rparr>)
                    else Inl DateParseError)))"

text \<open>
  \<open>load_activity_data\<close>: a missing file, \<open>EmptyDataError\<close> and any other exception all give
  the empty frame with the expected columns.
\<close>

definition load_activity_data :: "pylib \<Rightarrow> csv_file \<Rightarrow> frame" where
  "load_activity_data L file =
     (case file of
        Missing \<Rightarrow> empty_frame
      | Lines ls \<Rightarrow>
          (case read_and_convert L ls of
             Inl e \<Rightarrow> empty_frame
           | Inr df \<Rightarrow> df))"

section \<open>The response parser (image_analysis.py)\<close>

text \<open>
  \<open>str.strip(chars)\<close> removes from both ends every character that belongs to \<open>chars\<close>,
  taken as a set; \<open>str.strip()\<close> removes whitespace. Strings are byte strings here, so the
  whitespace is Python's ASCII whitespace; the Unicode spaces beyond it are not modelled.
\<close>

definition strip_chars :: "string \<Rightarrow> string \<Rightarrow> string" where
  "strip_chars chars s = rev (dropWhile (\<lambda>c. c \<in> set chars) (rev (dropWhile (\<lambda>c. c \<in> set chars) s)))"

definition whitespace :: string where
  "whitespace = [CHR 0x20, CHR 0x09, CHR 0x0A, CHR 0x0B, CHR 0x0C, CHR 0x0D,
     CHR 0x1C, CHR 0x1D, CHR 0x1E, CHR 0x1F]"

definition strip :: "string \<Rightarrow> string" where
  "strip s = strip_chars whitespace s"

definition fence :: string where
  "fence = [CHR 0x60, CHR 0x60, CHR 0x60]"

definition fence_json :: string where
  "fence_json = fence @ ''json''"

text \<open>
  Lines 129-132:
  \<^verbatim>\<open>if analysis_content.startswith(FENCE + "json"):
      analysis_content = analysis_content.strip(FENCE + "json").strip()
  elif analysis_content.startswith(FENCE):
      analysis_content = analysis_content.strip(FENCE).strip()\<close>
  where \<open>FENCE\<close> stands for the three backquotes.
\<close>

definition clean_fences :: "string \<Rightarrow> string" where
  "clean_fences analysis_content =
     (if startswith analysis_content fence_json then strip (strip_chars fence_json analysis_content)
      else if startswith analysis_content fence then strip (strip_chars fence analysis_content)
      else analysis_content)"

definition error_dict :: "string \<Rightarrow> string \<Rightarrow> pyobj" where
  "error_dict kind raw_content = PyDict [(''error'', PStr kind), (''raw_content'', PStr raw_content)]"

text \<open>
  Lines 127-154, from the response text on. A text that does not parse gives the
  \<open>JSONDecodeError\<close> dict; a parsed value with the three keys is returned as it is; one
  without them gives the \<open>Invalid JSON structure\<close> dict. On a parsed number, boolean or
  \<open>null\<close> the key check \<open>k in analysis_json\<close> raises \<open>TypeError\<close>, which the outer
  \<open>except Exception\<close> turns into \<open>None\<close>.
\<close>

definition parse_response :: "pylib \<Rightarrow> string \<Rightarrow> pyobj option" where
  "parse_response L analysis_content =
     (let content = clean_fences analysis_content
      in case json_loads L content of
           None \<Rightarrow> Some (error_dict ''JSONDecodeError'' content)
         | Some None \<Rightarrow> None
         | Some (Some analysis_json) \<Rightarrow>
             if has_key analysis_json ''crisp_description'' \<and> has_key analysis_json ''main_topic''
                \<and> has_key analysis_json ''short_description''
             then Some analysis_json
             else Some (error_dict ''Invalid JSON structure'' content))"

text \<open>
  \<open>analyze_screenshot\<close> as a whole: no client, an image that cannot be encoded and a failed
  API call all return \<open>None\<close>. The function itself lets no exception out.
\<close>

definition analyze_screenshot_body :: "pylib \<Rightarrow> bool \<Rightarrow> bool \<Rightarrow> string outcome \<Rightarrow> pyobj option" where
  "analyze_screenshot_body L client encoded response =
     (if \<not> client then None
      else if \<not> encoded then None
      else (case response of
              Raises e \<Rightarrow> None
            | Returns analysis_content \<Rightarrow> parse_response L analysis_content))"

section \<open>The topic normalizer (topic_normalizer.py)\<close>

text \<open>Arguments a caller can pass: \<open>None\<close>, a str, an int, or a list (which cannot be hashed).\<close>

datatype topic = TNone | TStr string | TInt int | TList "topic list"

fun hashable :: "topic \<Rightarrow> bool" where
  "hashable (TList l) = False"
| "hashable t = True"

fun topic_true :: "topic \<Rightarrow> bool" where
  "topic_true TNone = False"
| "topic_true (TStr s) = (s \<noteq> [])"
| "topic_true (TInt n) = (n \<noteq> 0)"
| "topic_true (TList l) = (l \<noteq> [])"

fun is_str :: "topic \<Rightarrow> bool" where
  "is_str (TStr s) = True"
| "is_str t = False"

text \<open>
  The state of the module: the entries of the \<open>lru_cache\<close>, most recently used first, and
  the number of requests sent to the remote model so far.
\<close>

record normalizer =
  cache :: "(topic \<times> topic) list"
  remote_calls :: nat

definition maxsize :: nat where
  "maxsize = 100"

definition fresh :: normalizer where
  "fresh = \<lparr>cache = [], remote_calls = 0\<rparr>"

text \<open>
  The body of \<open>normalize_topic\<close>, lines 63-105. \<open>client\<close> says whether the module's client
  was initialised; \<open>create n s\<close> is the answer to the request number \<open>n\<close>, made for topic
  \<open>s\<close>: the content of the message, or an exception raised inside the \<open>try\<close>.
\<close>

definition normalize_body ::
  "bool \<Rightarrow> (nat \<Rightarrow> string \<Rightarrow> string outcome) \<Rightarrow> normalizer \<Rightarrow> topic \<Rightarrow> topic \<times> normalizer" where
  "normalize_body client create st t =
     (if \<not> client then (t, st)
      else if \<not> topic_true t \<or> \<not> is_str t then (TStr ''Unknown'', st)
      else (case t of
              TStr s \<Rightarrow>
                (case create (remote_calls st) s of
                   Raises e \<Rightarrow> (t, st\<lparr>remote_calls := Suc (remote_calls st)\<rparr>)
                 | Returns content \<Rightarrow>
                     (TStr (strip content), st\<lparr>remote_calls := Suc (remote_calls st)\<rparr>))
            | _ \<Rightarrow> (TStr ''Unknown'', st)))"

text \<open>
  \<open>@lru_cache(maxsize=100)\<close> around the body: the key must be hashable (\<open>TypeError\<close>
  otherwise); a hit returns the stored result and makes the entry the most recent; a miss
  runs the body, stores its result as the most recent entry and, when the cache is full,
  drops the least recently used one.
\<close>

definition normalize_topic ::
  "bool \<Rightarrow> (nat \<Rightarrow> string \<Rightarrow> string outcome) \<Rightarrow> normalizer \<Rightarrow> topic \<Rightarrow> topic outcome \<times> normalizer" where
  "normalize_topic client create st t =
     (if \<not> hashable t then (Raises ''unhashable type'', st)
      else (case map_of (cache st) t of
              Some v \<Rightarrow> (Returns v, st\<lparr>cache := (t, v) # filter (\<lambda>e. fst e \<noteq> t) (cache st)\<rparr>)
            | None \<Rightarrow>
                (let (v, st') = normalize_body client create st t;
                     kept = (if maxsize \<le> length (cache st') then butlast (cache st') else cache st')
                 in (Returns v, st'\<lparr>cache := (t, v) # kept\<rparr>))))"

text \<open>A sequence of calls in one process, results dropped.\<close>

fun normalize_all ::
  "bool \<Rightarrow> (nat \<Rightarrow> string \<Rightarrow> string outcome) \<Rightarrow> normalizer \<Rightarrow> topic list \<Rightarrow> normalizer" where
  "normalize_all client create st [] = st"
| "normalize_all client create st (t # ts) =
     normalize_all client create (snd (normalize_topic client create st t)) ts"

section \<open>Notions used in the statements\<close>

text \<open>
  An answer of \<open>analyze_screenshot\<close> after which the loop goes on to the next attempt when
  one is left: an exception, a result that is false, a \<open>JSONDecodeError\<close> dict, or a result
  with an \<open>error\<close> in it that is not a dict (its \<open>.get\<close> raises).
\<close>

fun retried :: "pyobj option outcome \<Rightarrow> bool" where
  "retried (Raises e) = True"
| "retried (Returns None) = True"
| "retried (Returns (Some obj)) =
     (\<not> truthy obj \<or>
      (has_key obj ''error'' \<and>
       (case obj of PyDict d \<Rightarrow> map_of d ''error'' = Some (PStr ''JSONDecodeError'') | _ \<Rightarrow> True)))"

text \<open>
  What the analysis loop can do to the log, from the state \<open>st\<close> it starts in: nothing, or
  one call of \<open>save_activity\<close> with \<open>MainTopic = Error\<close>, after which the result is \<open>None\<close>.
\<close>

definition loop_outcome :: "pylib \<Rightarrow> env \<Rightarrow> string \<Rightarrow> tracker \<Rightarrow> tracker \<Rightarrow> bool" where
  "loop_outcome L E w st st' =
     (screenshot_path st' = screenshot_path st \<and>
      (saves_called st' = saves_called st \<and> data_file st' = data_file st
       \<or> saves_called st' = Suc (saves_called st) \<and> analysis_result st' = None
          \<and> (\<exists>crisp short.
                data_file st' =
                  save_activity L (csv_written E) (now E) w crisp (PStr ''Error'') short
                    (screenshot_path st) (data_file st))))"

text \<open>
  A result that step 4 persists: a non-empty dict without an \<open>error\<close> key.
\<close>

definition well_formed :: "pyobj option \<Rightarrow> bool" where
  "well_formed r = (case r of Some (PyDict d) \<Rightarrow> d \<noteq> [] \<and> ''error'' \<notin> set (map fst d) | _ \<Rightarrow> False)"

text \<open>
  Line 68, \<open>not topic or not isinstance(topic, str)\<close>: a topic that is false or not a str.
\<close>

definition degenerate :: "topic \<Rightarrow> bool" where
  "degenerate t = (\<not> topic_true t \<or> \<not> is_str t)"

text \<open>
  What the body returns for a key, and the cache therefore holds: with a client,
  \<open>Unknown\<close> for a degenerate key; without one, the key itself.
\<close>

definition entries_ok :: "bool \<Rightarrow> (topic \<times> topic) list \<Rightarrow> bool" where
  "entries_ok client c =
     list_all (\<lambda>e. if client then (if degenerate (fst e) then snd e = TStr ''Unknown'' else True)
                    else snd e = fst e) c"


text \<open>
  A line of the log that the loader accepts: six cells, the first one missing or a text
  that is a date (and no number).
\<close>

definition parses :: "pylib \<Rightarrow> string list \<Rightarrow> bool" where
  "parses L r =
     (length r = length columns_expected \<and>
      (case read_cell L (hd r) of
         NaN \<Rightarrow> True
       | Text s \<Rightarrow> to_datetime L s \<noteq> None
       | _ \<Rightarrow> False))"

text \<open>The timestamps that the lines of a log hold, and the lines of a file after the header.\<close>

definition timestamp_texts :: "pylib \<Rightarrow> string list list \<Rightarrow> string list" where
  "timestamp_texts L body = filter (\<lambda>s. read_cell L s \<noteq> NaN) (map hd body)"

definition log_lines :: "csv_file \<Rightarrow> string list list" where
  "log_lines file = (case file of Lines (h # body) \<Rightarrow> body | _ \<Rightarrow> [])"

text \<open>
  A log the tracker itself can have written: no file yet, or the header line followed by
  lines that parse, with timestamps that go together as one column. A file without any
  line is not one.
\<close>

definition well_formed_log :: "pylib \<Rightarrow> csv_file \<Rightarrow> bool" where
  "well_formed_log L file =
     (case file of
        Missing \<Rightarrow> True
      | Lines [] \<Rightarrow> False
      | Lines (h # body) \<Rightarrow>
          h = columns_expected \<and> list_all (parses L) body
          \<and> formats_agree L (timestamp_texts L body))"



section \<open>Example inputs\<close>

text \<open>A well-formed result and the JSON text of it.\<close>

definition example_result :: "(string \<times> pyval) list" where
  "example_result = [(''crisp_description'', PStr ''Reading a pull request in the browser''),
     (''main_topic'', PStr ''Code review''), (''short_description'', PStr ''Reviewing code'')]"

definition quoted :: "string \<Rightarrow> string" where
  "quoted s = CHR 0x22 # s @ [CHR 0x22]"

definition example_response :: string where
  "example_response =
     ''{'' @ quoted ''crisp_description'' @ '': '' @ quoted ''Reading a pull request in the browser''
     @ '', '' @ quoted ''main_topic'' @ '': '' @ quoted ''Code review''
     @ '', '' @ quoted ''short_description'' @ '': '' @ quoted ''Reviewing code'' @ ''}''"

text \<open>
  A library for the examples: it agrees with the real functions on the texts the examples
  hand to it (two instants and their renderings, which have one format; three markers of
  a missing value; texts of digits as the only literals; the JSON text \<open>null\<close> and the
  JSON text of the example result; every other text that an example parses is not JSON).
  Two timestamps of the examples have one format when they have the same length, that is
  both or neither have microseconds.
\<close>

definition example_lib :: pylib where
  "example_lib =
     \<lparr>str_of_datetime = (\<lambda>t. if t = 0 then ''2024-05-01 09:00:00'' else ''2024-05-01 09:02:00''),
      to_datetime = (\<lambda>s. if s = ''2024-05-01 09:00:00'' then Some 0
                          else if s = ''2024-05-01 09:02:00'' then Some 1 else None),
      one_format = (\<lambda>texts. list_all (\<lambda>s. length s = length (hd texts)) texts),
      na_marker = (\<lambda>s. s \<in> set [''NaN'', ''NA'', ''null'']),
      literal = (\<lambda>s. s \<noteq> [] \<and> list_all (\<lambda>c. c \<in> set ''0123456789'') s),
      json_loads = (\<lambda>s. if s = ''null'' then Some None
                         else if s = example_response then Some (Some (PyDict example_result))
                         else None)\<rparr>"

text \<open>
  The same library, except that the second instant has microseconds and is rendered
  with them.
\<close>

definition example_lib_micro :: pylib where
  "example_lib_micro =
     example_lib
       \<lparr>str_of_datetime := (\<lambda>t. if t = 0 then ''2024-05-01 09:00:00'' else ''2024-05-01 09:02:00.250000''),
        to_datetime := (\<lambda>s. if s = ''2024-05-01 09:00:00'' then Some 0
                             else if s = ''2024-05-01 09:02:00.250000'' then Some 1 else None)\<rparr>"

definition example_path :: string where
  "example_path = ''data/screenshots/screenshot_20240501_090200.png''"

definition example_log :: csv_file where
  "example_log =
     Lines [columns_expected,
            [''2024-05-01 09:00:00'', ''Editor'', ''Writing code'', ''Coding'', ''Editing a file'',
             ''screenshot_20240501_090000.png'']]"

text \<open>Three attempts; the screen grab returns \<open>None\<close>, raises, and returns \<open>None\<close> again.\<close>

definition env_capture_fails :: env where
  "env_capture_fails =
     \<lparr>MAX_RETRIES = 3, now = 1, get_active_window_title = Returns ''Editor'',
      take_screenshot = (\<lambda>i. if i = 1 then Raises ''screen grab failed'' else Returns None),
      analyze_screenshot = (\<lambda>i. Returns None),
      csv_written = True\<rparr>"

text \<open>
  Two attempts; the screen grab works and every response is the text \<open>not json\<close>.
\<close>

definition env_malformed_twice :: env where
  "env_malformed_twice =
     \<lparr>MAX_RETRIES = 2, now = 1, get_active_window_title = Returns ''Editor'',
      take_screenshot = (\<lambda>i. Returns (Some example_path)),
      analyze_screenshot = (\<lambda>i. Returns (Some (error_dict ''JSONDecodeError'' ''not json''))),
      csv_written = True\<rparr>"

text \<open>
  Three attempts; the window lookup raises, the screen grab works, and the response is
  JSON without the three keys.
\<close>

definition env_missing_keys :: env where
  "env_missing_keys =
     \<lparr>MAX_RETRIES = 3, now = 1, get_active_window_title = Raises ''no display'',
      take_screenshot = (\<lambda>i. Returns (Some example_path)),
      analyze_screenshot = (\<lambda>i. Returns (Some (error_dict ''Invalid JSON structure'' ''{}''))),
      csv_written = True\<rparr>"

text \<open>
  Three attempts; the screen grab works and \<open>analyze_screenshot\<close> returns \<open>None\<close> each time.
\<close>

definition env_analysis_none :: env where
  "env_analysis_none =
     \<lparr>MAX_RETRIES = 3, now = 1, get_active_window_title = Returns ''Editor'',
      take_screenshot = (\<lambda>i. Returns (Some example_path)),
      analyze_screenshot = (\<lambda>i. Returns None),
      csv_written = True\<rparr>"

text \<open>
  Three attempts; the first screen grab and the first analysis return \<open>None\<close>, the second of
  each succeeds.
\<close>

definition env_success :: env where
  "env_success =
     \<lparr>MAX_RETRIES = 3, now = 1, get_active_window_title = Returns ''Browser'',
      take_screenshot = (\<lambda>i. if i = 0 then Returns None else Returns (Some example_path)),
      analyze_screenshot = (\<lambda>i. if i = 0 then Returns None else Returns (Some (PyDict example_result))),
      csv_written = True\<rparr>"

text \<open>
  A remote model that answers one topic (with whitespace around the answer) and fails on
  every other, and one that always answers.
\<close>

definition example_create :: "nat \<Rightarrow> string \<Rightarrow> string outcome" where
  "example_create n s =
     (if s = ''python programming'' then Returns ('' Python Programming'' @ [CHR 0x0A])
      else Raises ''connection error'')"


text \<open>
  The example log with a second line whose timestamp is not a date.
\<close>

definition example_log_bad :: csv_file where
  "example_log_bad =
     Lines [columns_expected,
            [''2024-05-01 09:00:00'', ''Editor'', ''Writing code'', ''Coding'', ''Editing a file'',
             ''screenshot_20240501_090000.png''],
            [''yesterday at noon'', ''Browser'', ''Reading the news'', ''News'', ''Reading'',
             ''screenshot_20240501_090200.png'']]"

section \<open>What one call of save_activity does\<close>

text \<open>
  A call whose write goes through appends exactly one line, after the header when the file
  is new; a call whose write fails leaves the file as it was.
\<close>

lemma save_activity_written:
  "save_activity L True t app crisp topic short path file =
     Lines ((case file of Missing \<Rightarrow> [columns_expected] | Lines ls \<Rightarrow> ls)
            @ [activity_row L t app crisp topic short path])"
  by (cases "file") (simp_all add: save_activity_def)

lemma save_activity_not_written:
  "save_activity L False t app crisp topic short path file = file"
  by (simp add: save_activity_def)



section \<open>Capture failure\<close>

lemma capture_loop_data_file: "data_file (capture_loop E as st) = data_file st"
  by (induction as arbitrary: st) (auto split: outcome.splits simp: Let_def)

lemma capture_loop_analyses: "analyses_run (capture_loop E as st) = analyses_run st"
  by (induction as arbitrary: st) (auto split: outcome.splits simp: Let_def)

lemma capture_loop_saves: "saves_called (capture_loop E as st) = saves_called st"
  by (induction as arbitrary: st) (auto split: outcome.splits simp: Let_def)

lemma capture_loop_all_fail:
  assumes "\<forall>i \<in> set as. take_screenshot E i = Returns None \<or> (\<exists>e. take_screenshot E i = Raises e)"
    and "\<not> path_ok (screenshot_path st)"
  shows "\<not> path_ok (screenshot_path (capture_loop E as st))"
  using assms
proof (induction as arbitrary: st)
  case Nil
  then show ?case by simp
next
  case (Cons a as)
  from Cons.prems(1) have "take_screenshot E a = Returns None \<or> (\<exists>e. take_screenshot E a = Raises e)"
    by simp
  then show ?case
  proof
    assume "take_screenshot E a = Returns None"
    then show ?thesis using Cons by (simp add: Let_def)
  next
    assume "\<exists>e. take_screenshot E a = Raises e"
    then show ?thesis using Cons by auto
  qed
qed

text \<open>
  C2. When \<open>take_screenshot\<close> returns \<open>None\<close> or raises at every one of the \<open>MAX_RETRIES\<close>
  attempts, the iteration ends without a single call of \<open>save_activity\<close> (and without
  calling \<open>analyze_screenshot\<close>): the log file after the iteration is the log file before
  it, so it loads to the same rows.
\<close>

theorem capture_failure_saves_nothing:
  assumes "\<forall>i \<in> set (attempts (MAX_RETRIES E)).
             take_screenshot E i = Returns None \<or> (\<exists>e. take_screenshot E i = Raises e)"
  shows "saves_called (run_tracker_iteration L E file) = 0
       \<and> data_file (run_tracker_iteration L E file) = file
       \<and> analyses_run (run_tracker_iteration L E file) = 0
       \<and> rows (load_activity_data L (data_file (run_tracker_iteration L E file)))
           = rows (load_activity_data L file)"
proof -
  let ?st = "capture_loop E (attempts (MAX_RETRIES E)) (start file)"
  have "\<not> path_ok (screenshot_path ?st)"
    by (rule capture_loop_all_fail [OF assms]) (simp add: start_def)
  then have run: "run_tracker_iteration L E file = ?st"
    by (simp add: run_tracker_iteration_def Let_def)
  show ?thesis
    unfolding run
    by (simp add: capture_loop_data_file capture_loop_analyses capture_loop_saves start_def)
qed

theorem capture_failure_saves_nothing_witness:
  "saves_called (run_tracker_iteration example_lib env_capture_fails example_log) = 0
   \<and> data_file (run_tracker_iteration example_lib env_capture_fails example_log) = example_log
   \<and> shots_taken (run_tracker_iteration example_lib env_capture_fails example_log) = 3"
proof -
  have "\<forall>i \<in> set (attempts (MAX_RETRIES env_capture_fails)).
          take_screenshot env_capture_fails i = Returns None
          \<or> (\<exists>e. take_screenshot env_capture_fails i = Raises e)"
    by (simp add: env_capture_fails_def)
  from capture_failure_saves_nothing [OF this, of example_lib example_log]
  have "saves_called (run_tracker_iteration example_lib env_capture_fails example_log) = 0"
    and "data_file (run_tracker_iteration example_lib env_capture_fails example_log) = example_log"
    by simp_all
  moreover have "shots_taken (run_tracker_iteration example_lib env_capture_fails example_log) = 3"
    by (simp add: run_tracker_iteration_def env_capture_fails_def attempts_def start_def
        upt_conv_Cons Let_def)
  ultimately show ?thesis by simp
qed

section \<open>The analysis loop\<close>

text \<open>
  What \<open>analyze_screenshot\<close> hands to the loop: \<open>None\<close> when there is no client, no
  encoded image or the API call fails; the two error dicts when the response is not JSON or
  lacks a key. A \<open>JSONDecodeError\<close> dict is among the answers that are retried.
\<close>

lemma parse_response_not_json:
  "json_loads L (clean_fences c) = None \<Longrightarrow>
   parse_response L c = Some (error_dict ''JSONDecodeError'' (clean_fences c))"
  by (simp add: parse_response_def)

lemma parse_response_missing_keys:
  "json_loads L (clean_fences c) = Some (Some j) \<Longrightarrow>
   \<not> (has_key j ''crisp_description'' \<and> has_key j ''main_topic'' \<and> has_key j ''short_description'') \<Longrightarrow>
   parse_response L c = Some (error_dict ''Invalid JSON structure'' (clean_fences c))"
  by (auto simp: parse_response_def)

lemma analyze_screenshot_hard_failure:
  "analyze_screenshot_body L False encoded response = None"
  "analyze_screenshot_body L client False response = None"
  "analyze_screenshot_body L client encoded (Raises e) = None"
  by (simp_all add: analyze_screenshot_body_def)

lemma malformed_is_retried: "retried (Returns (Some (error_dict ''JSONDecodeError'' c)))"
  by (simp add: error_dict_def)

lemma analysis_loop_all_none:
  "\<forall>i \<in> set as. analyze_screenshot E i = Returns None \<Longrightarrow>
   analysis_loop L E w as st =
     st\<lparr>analysis_result := (if as = [] then analysis_result st else None),
        analyses_run := analyses_run st + length as\<rparr>"
  by (induction as arbitrary: st) (auto simp: Let_def)

lemma analysis_loop_retried:
  assumes "\<forall>i \<in> set as. retried (analyze_screenshot E i) \<and> int i < MAX_RETRIES E - 1"
  shows "\<exists>ar. analysis_loop L E w (as @ bs) st =
           analysis_loop L E w bs (st\<lparr>analysis_result := ar, analyses_run := analyses_run st + length as\<rparr>)"
  using assms
proof (induction as arbitrary: st)
  case Nil
  have "st = st\<lparr>analysis_result := analysis_result st, analyses_run := analyses_run st + length ([]::nat list)\<rparr>"
    by simp
  then show ?case by (metis append_Nil)
next
  case (Cons a as)
  have a: "retried (analyze_screenshot E a)" "int a < MAX_RETRIES E - 1"
    using Cons.prems by simp_all
  have rest: "\<forall>i \<in> set as. retried (analyze_screenshot E i) \<and> int i < MAX_RETRIES E - 1"
    using Cons.prems by simp
  have step: "\<exists>ar. analysis_loop L E w ((a # as) @ bs) st =
      analysis_loop L E w (as @ bs) (st\<lparr>analysis_result := ar, analyses_run := Suc (analyses_run st)\<rparr>)"
  proof (cases "analyze_screenshot E a")
    case (Raises e)
    with a show ?thesis
      by (intro exI[of _ "analysis_result st"]) (simp add: analysis_except_def)
  next
    case (Returns r)
    show ?thesis
    proof (cases r)
      case None
      with Returns show ?thesis
        by (intro exI[of _ None]) (simp add: Let_def)
    next
      case (Some obj)
      with Returns a show ?thesis
        by (intro exI[of _ "Some obj"])
          (cases obj; force simp: Let_def analysis_except_def dest: map_of_SomeD)
    qed
  qed
  then obtain ar where ar: "analysis_loop L E w ((a # as) @ bs) st =
      analysis_loop L E w (as @ bs) (st\<lparr>analysis_result := ar, analyses_run := Suc (analyses_run st)\<rparr>)"
    by blast
  from Cons.IH [OF rest, of "st\<lparr>analysis_result := ar, analyses_run := Suc (analyses_run st)\<rparr>"]
  obtain ar' where "analysis_loop L E w (as @ bs) (st\<lparr>analysis_result := ar, analyses_run := Suc (analyses_run st)\<rparr>)
     = analysis_loop L E w bs (st\<lparr>analysis_result := ar', analyses_run := analyses_run st + length (a # as)\<rparr>)"
    by auto
  with ar show ?case by metis
qed

lemma attempts_split:
  "int k < n \<Longrightarrow> attempts n = [0 ..< k] @ k # [Suc k ..< nat n]"
proof -
  assume "int k < n"
  then have k: "k < nat n" by simp
  then have "[0 ..< nat n] = [0 ..< k] @ [k ..< nat n]"
    by (metis le_add_diff_inverse less_imp_le_nat upt_add_eq_append zero_le)
  with k show ?thesis by (simp add: attempts_def upt_conv_Cons)
qed

lemma capture_loop_result_fresh:
  "analysis_result (capture_loop E as st) = analysis_result st"
  by (induction as arbitrary: st) (auto split: outcome.splits simp: Let_def)

lemma save_phase_None: "analysis_result st = None \<Longrightarrow> save_phase L E w st = st"
  by (simp add: save_phase_def)

text \<open>
  C3. The screen was captured at path \<open>p\<close>, the attempts before attempt \<open>k\<close> were all retried,
  and at attempt \<open>k\<close> \<open>analyze_screenshot\<close> returns an error dict whose kind is not
  \<open>JSONDecodeError\<close> (missing keys), or any error dict when \<open>k\<close> is the last attempt. Then
  the iteration calls \<open>save_activity\<close> exactly once, with \<open>CrispDescription = Analysis Error\<close>,
  \<open>MainTopic = Error\<close>, \<open>ShortDescription\<close> the \<open>raw_content\<close> of the dict and the captured
  path as \<open>screenshot_path\<close>, and makes no further attempt. A \<open>JSONDecodeError\<close> dict at an
  earlier attempt is among the retried answers: it is followed by the next attempt and
  leaves no record.
\<close>

theorem analysis_error_recorded_once:
  assumes capture: "screenshot_path (capture_loop E (attempts (MAX_RETRIES E)) (start file)) = Some p"
    and p: "p \<noteq> []"
    and k: "int k < MAX_RETRIES E"
    and earlier: "\<forall>i<k. retried (analyze_screenshot E i)"
    and err: "analyze_screenshot E k = Returns (Some (error_dict kind raw_content))"
    and final: "kind \<noteq> ''JSONDecodeError'' \<or> int k = MAX_RETRIES E - 1"
  shows "saves_called (run_tracker_iteration L E file) = 1
       \<and> data_file (run_tracker_iteration L E file) =
           save_activity L (csv_written E) (now E) (window_title E) (PStr ''Analysis Error'')
             (PStr ''Error'') (PStr raw_content) (Some p) file
       \<and> analyses_run (run_tracker_iteration L E file) = Suc k"
proof -
  let ?w = "window_title E"
  let ?st0 = "capture_loop E (attempts (MAX_RETRIES E)) (start file)"
  let ?rest = "[Suc k ..< nat (MAX_RETRIES E)]"
  have st0: "data_file ?st0 = file" "saves_called ?st0 = 0" "analyses_run ?st0 = 0"
    by (simp_all add: capture_loop_data_file capture_loop_saves capture_loop_analyses start_def)
  have "\<forall>i \<in> set [0 ..< k]. retried (analyze_screenshot E i) \<and> int i < MAX_RETRIES E - 1"
    using earlier k by auto
  from analysis_loop_retried [OF this, of L ?w "k # ?rest" ?st0]
  obtain ar where loop: "analysis_loop L E ?w (attempts (MAX_RETRIES E)) ?st0 =
      analysis_loop L E ?w (k # ?rest) (?st0\<lparr>analysis_result := ar, analyses_run := analyses_run ?st0 + k\<rparr>)"
    using attempts_split [OF k] by auto
  let ?st1 = "?st0\<lparr>analysis_result := ar, analyses_run := analyses_run ?st0 + k\<rparr>"
  have stop: "\<not> (map_of [(''error'', PStr kind), (''raw_content'', PStr raw_content)] ''error''
                 = Some (PStr ''JSONDecodeError'') \<and> int k < MAX_RETRIES E - 1)"
    using final by auto
  have step: "analysis_loop L E ?w (k # ?rest) ?st1 =
      record_analysis_error L E ?w [(''error'', PStr kind), (''raw_content'', PStr raw_content)]
        (?st1\<lparr>analysis_result := Some (error_dict kind raw_content), analyses_run := Suc (analyses_run ?st1)\<rparr>)"
    using err stop by (auto simp: error_dict_def Let_def)
  let ?st2 = "record_analysis_error L E ?w [(''error'', PStr kind), (''raw_content'', PStr raw_content)]
        (?st1\<lparr>analysis_result := Some (error_dict kind raw_content), analyses_run := Suc (analyses_run ?st1)\<rparr>)"
  have none: "analysis_result ?st2 = None"
    by (simp add: record_analysis_error_def)
  have run: "run_tracker_iteration L E file = ?st2"
    using capture p loop step save_phase_None [OF none]
    by (simp add: run_tracker_iteration_def Let_def)
  show ?thesis
    unfolding run using st0 capture
    by (simp add: record_analysis_error_def dict_get_def)
qed

lemma basename_example: "basename example_path = ''screenshot_20240501_090200.png''"
  by (simp add: basename_def example_path_def)

theorem analysis_error_recorded_once_witness:
  "saves_called (run_tracker_iteration example_lib env_malformed_twice example_log) = 1
   \<and> data_file (run_tracker_iteration example_lib env_malformed_twice example_log) =
       Lines [columns_expected,
              [''2024-05-01 09:00:00'', ''Editor'', ''Writing code'', ''Coding'', ''Editing a file'',
               ''screenshot_20240501_090000.png''],
              [''2024-05-01 09:02:00'', ''Editor'', ''Analysis Error'', ''Error'', ''not json'',
               ''screenshot_20240501_090200.png'']]
   \<and> analyses_run (run_tracker_iteration example_lib env_malformed_twice example_log) = 2
   \<and> saves_called (run_tracker_iteration example_lib env_missing_keys Missing) = 1
   \<and> data_file (run_tracker_iteration example_lib env_missing_keys Missing) =
       Lines [columns_expected,
              [''2024-05-01 09:02:00'', ''Unknown'', ''Analysis Error'', ''Error'', ''{}'',
               ''screenshot_20240501_090200.png'']]
   \<and> analyses_run (run_tracker_iteration example_lib env_missing_keys Missing) = 1"
proof -
  have p: "example_path \<noteq> []" by (simp add: example_path_def)
  have capture: "screenshot_path (capture_loop env_malformed_twice
        (attempts (MAX_RETRIES env_malformed_twice)) (start example_log)) = Some example_path"
    by (simp add: env_malformed_twice_def attempts_def upt_conv_Cons example_path_def Let_def)
  have k: "int 1 < MAX_RETRIES env_malformed_twice" by (simp add: env_malformed_twice_def)
  have earlier: "\<forall>i<1. retried (analyze_screenshot env_malformed_twice i)"
    by (simp add: env_malformed_twice_def error_dict_def)
  have err: "analyze_screenshot env_malformed_twice 1 = Returns (Some (error_dict ''JSONDecodeError'' ''not json''))"
    by (simp add: env_malformed_twice_def)
  have final: "''JSONDecodeError'' \<noteq> ''JSONDecodeError'' \<or> int 1 = MAX_RETRIES env_malformed_twice - 1"
    by (simp add: env_malformed_twice_def)
  have capture': "screenshot_path (capture_loop env_missing_keys
        (attempts (MAX_RETRIES env_missing_keys)) (start Missing)) = Some example_path"
    by (simp add: env_missing_keys_def attempts_def upt_conv_Cons example_path_def Let_def)
  have k': "int 0 < MAX_RETRIES env_missing_keys" by (simp add: env_missing_keys_def)
  have earlier': "\<forall>i<0. retried (analyze_screenshot env_missing_keys i)" by simp
  have err': "analyze_screenshot env_missing_keys 0 = Returns (Some (error_dict ''Invalid JSON structure'' ''{}''))"
    by (simp add: env_missing_keys_def)
  have final': "''Invalid JSON structure'' \<noteq> ''JSONDecodeError'' \<or> int 0 = MAX_RETRIES env_missing_keys - 1"
    by simp
  from analysis_error_recorded_once [OF capture p k earlier err final, of example_lib]
    analysis_error_recorded_once [OF capture' p k' earlier' err' final', of example_lib]
  show ?thesis
    by (simp add: save_activity_def activity_row_def screenshot_cell_def basename_example
        example_log_def example_lib_def env_malformed_twice_def env_missing_keys_def
        window_title_def p)
qed

text \<open>
  C1. The specification expects one \<open>Analysis Failed\<close> record when \<open>analyze_screenshot\<close> returns
  \<open>None\<close> at every attempt. The code's \<open>None\<close> branch (lines 91-93) only logs and sleeps,
  on the last attempt too, and step 4 skips the save: with the screen captured and \<open>None\<close>
  returned at each of the \<open>MAX_RETRIES\<close> attempts, \<open>save_activity\<close> is never called and the
  log file is unchanged.
\<close>

theorem hard_failure_every_attempt_saves_nothing:
  assumes capture: "screenshot_path (capture_loop E (attempts (MAX_RETRIES E)) (start file)) = Some p"
    and p: "p \<noteq> []"
    and none: "\<forall>i \<in> set (attempts (MAX_RETRIES E)). analyze_screenshot E i = Returns None"
  shows "saves_called (run_tracker_iteration L E file) = 0
       \<and> data_file (run_tracker_iteration L E file) = file
       \<and> analyses_run (run_tracker_iteration L E file) = nat (MAX_RETRIES E)"
proof -
  let ?st0 = "capture_loop E (attempts (MAX_RETRIES E)) (start file)"
  let ?st1 = "analysis_loop L E (window_title E) (attempts (MAX_RETRIES E)) ?st0"
  have st0: "data_file ?st0 = file" "saves_called ?st0 = 0" "analyses_run ?st0 = 0"
    "analysis_result ?st0 = None"
    by (simp_all add: capture_loop_data_file capture_loop_saves capture_loop_analyses
        capture_loop_result_fresh start_def)
  have st1: "?st1 = ?st0\<lparr>analysis_result := (if attempts (MAX_RETRIES E) = [] then analysis_result ?st0 else None),
        analyses_run := analyses_run ?st0 + length (attempts (MAX_RETRIES E))\<rparr>"
    by (rule analysis_loop_all_none [OF none])
  have "analysis_result ?st1 = None"
    unfolding st1 by (simp add: capture_loop_result_fresh start_def)
  then have run: "run_tracker_iteration L E file = ?st1"
    using capture p by (simp add: run_tracker_iteration_def Let_def save_phase_None)
  show ?thesis
    unfolding run st1 using st0 by (simp add: attempts_def)
qed

theorem hard_failure_every_attempt_saves_nothing_witness:
  "saves_called (run_tracker_iteration example_lib env_analysis_none example_log) = 0
   \<and> data_file (run_tracker_iteration example_lib env_analysis_none example_log) = example_log
   \<and> analyses_run (run_tracker_iteration example_lib env_analysis_none example_log) = 3"
proof -
  have capture: "screenshot_path (capture_loop env_analysis_none
        (attempts (MAX_RETRIES env_analysis_none)) (start example_log)) = Some example_path"
    by (simp add: env_analysis_none_def attempts_def upt_conv_Cons example_path_def Let_def)
  have p: "example_path \<noteq> []" by (simp add: example_path_def)
  have none: "\<forall>i \<in> set (attempts (MAX_RETRIES env_analysis_none)).
      analyze_screenshot env_analysis_none i = Returns None"
    by (simp add: env_analysis_none_def)
  from hard_failure_every_attempt_saves_nothing [OF capture p none, of example_lib]
  show ?thesis by (simp add: env_analysis_none_def)
qed

text \<open>
  The sibling path, lines 94-101: when the last attempt raises, the \<open>Analysis Failed\<close> record
  is written, with the exception text after the prefix \<open>Exception during analysis: \<close>.
\<close>

lemma exception_on_last_attempt_recorded:
  assumes capture: "screenshot_path (capture_loop E (attempts (MAX_RETRIES E)) (start file)) = Some p"
    and p: "p \<noteq> []"
    and k: "int k = MAX_RETRIES E - 1"
    and earlier: "\<forall>i<k. retried (analyze_screenshot E i)"
    and raises: "analyze_screenshot E k = Raises e"
  shows "saves_called (run_tracker_iteration L E file) = 1
       \<and> data_file (run_tracker_iteration L E file) =
           save_activity L (csv_written E) (now E) (window_title E) (PStr ''Analysis Failed'')
             (PStr ''Error'') (PStr (''Exception during analysis: '' @ e)) (Some p) file"
proof -
  let ?w = "window_title E"
  let ?st0 = "capture_loop E (attempts (MAX_RETRIES E)) (start file)"
  have k': "int k < MAX_RETRIES E" using k by simp
  have rest: "[Suc k ..< nat (MAX_RETRIES E)] = []" using k by simp
  have st0: "data_file ?st0 = file" "saves_called ?st0 = 0"
    by (simp_all add: capture_loop_data_file capture_loop_saves start_def)
  have "\<forall>i \<in> set [0 ..< k]. retried (analyze_screenshot E i) \<and> int i < MAX_RETRIES E - 1"
    using earlier k by auto
  from analysis_loop_retried [OF this, of L ?w "[k]" ?st0]
  obtain ar where loop: "analysis_loop L E ?w (attempts (MAX_RETRIES E)) ?st0 =
      analysis_loop L E ?w [k] (?st0\<lparr>analysis_result := ar, analyses_run := analyses_run ?st0 + k\<rparr>)"
    using attempts_split [OF k'] rest by auto
  let ?st1 = "?st0\<lparr>analysis_result := ar, analyses_run := analyses_run ?st0 + k\<rparr>"
  let ?st2 = "analysis_except L E ?w k e (?st1\<lparr>analyses_run := Suc (analyses_run ?st1)\<rparr>)"
  have step: "analysis_loop L E ?w [k] ?st1 = ?st2"
    using raises by simp
  have none: "analysis_result ?st2 = None"
    using k by (simp add: analysis_except_def)
  have run: "run_tracker_iteration L E file = ?st2"
    using capture p loop step save_phase_None [OF none]
    by (simp add: run_tracker_iteration_def Let_def)
  show ?thesis
    unfolding run using st0 capture k
    by (simp add: analysis_except_def)
qed

lemma loop_outcome_refl: "loop_outcome L E w st st"
  by (simp add: loop_outcome_def)

lemma loop_outcome_from:
  assumes "loop_outcome L E w st1 st'"
    and "screenshot_path st1 = screenshot_path st" "saves_called st1 = saves_called st"
      "data_file st1 = data_file st"
  shows "loop_outcome L E w st st'"
  using assms by (simp add: loop_outcome_def)

lemma loop_outcome_except_last:
  assumes "\<not> int k < MAX_RETRIES E - 1"
    and "screenshot_path st1 = screenshot_path st" "saves_called st1 = saves_called st"
      "data_file st1 = data_file st"
  shows "loop_outcome L E w st (analysis_except L E w k e st1)"
  using assms by (auto simp: loop_outcome_def analysis_except_def)

lemma loop_outcome_record:
  assumes "screenshot_path st1 = screenshot_path st" "saves_called st1 = saves_called st"
      "data_file st1 = data_file st"
  shows "loop_outcome L E w st (record_analysis_error L E w d st1)"
  using assms by (auto simp: loop_outcome_def record_analysis_error_def)

lemma analysis_loop_outcome:
  "n = nat (MAX_RETRIES E) \<Longrightarrow> loop_outcome L E w st (analysis_loop L E w [k ..< n] st)"
proof (induction "n - k" arbitrary: k st)
  case 0
  then show ?case by (simp add: loop_outcome_refl)
next
  case (Suc d)
  then have k: "k < n" and d: "d = n - Suc k" by simp_all
  have list: "[k ..< n] = k # [Suc k ..< n]" using k by (simp add: upt_conv_Cons)
  note IH = Suc.hyps(1) [OF d Suc.prems]
  have last: "[Suc k ..< n] = []" if "\<not> int k < MAX_RETRIES E - 1"
    using that k Suc.prems by simp
  show ?case
  proof (cases "analyze_screenshot E k")
    case (Raises e)
    let ?st1 = "st\<lparr>analyses_run := Suc (analyses_run st)\<rparr>"
    show ?thesis
    proof (cases "int k < MAX_RETRIES E - 1")
      case True
      then have "analysis_except L E w k e ?st1 = ?st1" by (simp add: analysis_except_def)
      then have "analysis_loop L E w [k ..< n] st = analysis_loop L E w [Suc k ..< n] ?st1"
        using Raises list by simp
      moreover have "loop_outcome L E w st (analysis_loop L E w [Suc k ..< n] ?st1)"
        by (rule loop_outcome_from [OF IH]) simp_all
      ultimately show ?thesis by simp
    next
      case False
      have "analysis_loop L E w [k ..< n] st = analysis_except L E w k e ?st1"
        using Raises list last [OF False] by simp
      moreover have "loop_outcome L E w st (analysis_except L E w k e ?st1)"
        by (rule loop_outcome_except_last [OF False]) simp_all
      ultimately show ?thesis by simp
    qed
  next
    case (Returns r)
    let ?st1 = "st\<lparr>analysis_result := r, analyses_run := Suc (analyses_run st)\<rparr>"
    have go_on: "loop_outcome L E w st (analysis_loop L E w [Suc k ..< n] ?st1)"
      by (rule loop_outcome_from [OF IH]) simp_all
    have stop: "loop_outcome L E w st ?st1"
      by (simp add: loop_outcome_def)
    have handler: "loop_outcome L E w st
        (analysis_loop L E w [Suc k ..< n] (analysis_except L E w k e ?st1))" for e
    proof (cases "int k < MAX_RETRIES E - 1")
      case True
      then have "analysis_except L E w k e ?st1 = ?st1" by (simp add: analysis_except_def)
      with go_on show ?thesis by simp
    next
      case False
      have "loop_outcome L E w st (analysis_except L E w k e ?st1)"
        by (rule loop_outcome_except_last [OF False]) simp_all
      then show ?thesis unfolding last [OF False] by simp
    qed
    have recorded: "loop_outcome L E w st (record_analysis_error L E w d ?st1)" for d
      by (rule loop_outcome_record) simp_all
    show ?thesis
    proof (cases r)
      case None
      with Returns list go_on show ?thesis by (simp add: Let_def)
    next
      case (Some obj)
      show ?thesis
      proof (cases obj)
        case (PyDict d)
        with Some Returns list go_on stop recorded [of d] show ?thesis
          by (auto simp: Let_def)
      next
        case (PyList l)
        with Some Returns list go_on stop handler [of "no_attribute_get obj"] show ?thesis
          by (auto simp: Let_def)
      next
        case (PyText t)
        with Some Returns list go_on stop handler [of "no_attribute_get obj"] show ?thesis
          by (auto simp: Let_def)
      qed
    qed
  qed
qed

text \<open>
  C6. Whatever the window lookup, the screen grab and the analysis answer, one iteration
  calls \<open>save_activity\<close> at most once. Without a call the log file is unchanged. An
  iteration that ends the analysis loop with a well-formed result calls it exactly once,
  with the three fields of the result. Any other iteration that calls it writes a failure
  record, whose \<open>MainTopic\<close> is \<open>Error\<close>.
\<close>

theorem iteration_saves_at_most_once:
  "saves_called (run_tracker_iteration L E file) \<le> 1
   \<and> (saves_called (run_tracker_iteration L E file) = 0 \<longrightarrow>
        data_file (run_tracker_iteration L E file) = file)
   \<and> (\<forall>d. analysis_result (run_tracker_iteration L E file) = Some (PyDict d)
            \<and> well_formed (Some (PyDict d)) \<longrightarrow>
        saves_called (run_tracker_iteration L E file) = 1
        \<and> data_file (run_tracker_iteration L E file) =
            save_activity L (csv_written E) (now E) (window_title E)
              (dict_get d ''crisp_description'' (PStr ''N/A''))
              (dict_get d ''main_topic'' (PStr ''N/A''))
              (dict_get d ''short_description'' (PStr ''N/A''))
              (screenshot_path (run_tracker_iteration L E file)) file)
   \<and> (saves_called (run_tracker_iteration L E file) = 1
        \<and> \<not> well_formed (analysis_result (run_tracker_iteration L E file)) \<longrightarrow>
        (\<exists>crisp short.
           data_file (run_tracker_iteration L E file) =
             save_activity L (csv_written E) (now E) (window_title E) crisp (PStr ''Error'') short
               (screenshot_path (run_tracker_iteration L E file)) file))"
proof -
  let ?w = "window_title E"
  let ?st0 = "capture_loop E (attempts (MAX_RETRIES E)) (start file)"
  let ?st1 = "analysis_loop L E ?w (attempts (MAX_RETRIES E)) ?st0"
  have st0: "data_file ?st0 = file" "saves_called ?st0 = 0" "analysis_result ?st0 = None"
    by (simp_all add: capture_loop_data_file capture_loop_saves capture_loop_result_fresh start_def)
  show ?thesis
  proof (cases "path_ok (screenshot_path ?st0)")
    case False
    then have "run_tracker_iteration L E file = ?st0"
      by (simp add: run_tracker_iteration_def Let_def)
    then show ?thesis using st0 by (simp add: well_formed_def)
  next
    case True
    then have run: "run_tracker_iteration L E file = save_phase L E ?w ?st1"
      by (simp add: run_tracker_iteration_def Let_def)
    have "loop_outcome L E ?w ?st0 ?st1"
      unfolding attempts_def by (rule analysis_loop_outcome) simp
    then have path: "screenshot_path ?st1 = screenshot_path ?st0"
      and cases: "saves_called ?st1 = 0 \<and> data_file ?st1 = file
        \<or> saves_called ?st1 = 1 \<and> analysis_result ?st1 = None
           \<and> (\<exists>crisp short. data_file ?st1 =
                 save_activity L (csv_written E) (now E) ?w crisp (PStr ''Error'') short
                   (screenshot_path ?st0) file)"
      using st0 by (auto simp: loop_outcome_def)
    from cases show ?thesis
    proof
      assume quiet: "saves_called ?st1 = 0 \<and> data_file ?st1 = file"
      show ?thesis
        unfolding run using quiet
        by (cases "analysis_result ?st1")
          (auto simp: save_phase_def well_formed_def split: pyobj.splits)
    next
      assume failed: "saves_called ?st1 = 1 \<and> analysis_result ?st1 = None
        \<and> (\<exists>crisp short. data_file ?st1 =
              save_activity L (csv_written E) (now E) ?w crisp (PStr ''Error'') short
                (screenshot_path ?st0) file)"
      then have "save_phase L E ?w ?st1 = ?st1" by (simp add: save_phase_None)
      then show ?thesis
        unfolding run using failed path by (auto simp: well_formed_def)
    qed
  qed
qed

theorem iteration_saves_at_most_once_witness:
  "saves_called (run_tracker_iteration example_lib env_success example_log) = 1
   \<and> data_file (run_tracker_iteration example_lib env_success example_log) =
       Lines [columns_expected,
              [''2024-05-01 09:00:00'', ''Editor'', ''Writing code'', ''Coding'', ''Editing a file'',
               ''screenshot_20240501_090000.png''],
              [''2024-05-01 09:02:00'', ''Browser'', ''Reading a pull request in the browser'',
               ''Code review'', ''Reviewing code'', ''screenshot_20240501_090200.png'']]"
proof -
  let ?r = "run_tracker_iteration example_lib env_success example_log"
  have p: "example_path \<noteq> []" by (simp add: example_path_def)
  have result: "analysis_result ?r = Some (PyDict example_result)"
    and path: "screenshot_path ?r = Some example_path"
    using p by (simp_all add: run_tracker_iteration_def env_success_def attempts_def upt_conv_Cons
        start_def Let_def save_phase_def example_result_def)
  have wf: "well_formed (Some (PyDict example_result))"
    by (simp add: well_formed_def example_result_def)
  from iteration_saves_at_most_once [of example_lib env_success example_log] result wf
  have "saves_called ?r = 1"
    and "data_file ?r =
      save_activity example_lib (csv_written env_success) (now env_success) (window_title env_success)
        (dict_get example_result ''crisp_description'' (PStr ''N/A''))
        (dict_get example_result ''main_topic'' (PStr ''N/A''))
        (dict_get example_result ''short_description'' (PStr ''N/A''))
        (screenshot_path ?r) example_log"
    by blast+
  then show ?thesis
    unfolding path
    by (simp add: save_activity_def activity_row_def screenshot_cell_def basename_example
        example_log_def example_lib_def env_success_def window_title_def p dict_get_def
        example_result_def)
qed

section \<open>The topic normalizer: degenerate input\<close>

lemma normalize_body_cache: "cache (snd (normalize_body client create st t)) = cache st"
  by (auto simp: normalize_body_def split: topic.splits outcome.splits)

lemma normalize_body_value:
  "entries_ok client [(t, fst (normalize_body client create st t))]"
  by (auto simp: normalize_body_def entries_ok_def degenerate_def split: topic.splits outcome.splits)

lemma entries_ok_Cons: "entries_ok client (e # c) = (entries_ok client [e] \<and> entries_ok client c)"
  by (simp add: entries_ok_def)

lemma entries_ok_filter: "entries_ok client c \<Longrightarrow> entries_ok client (filter P c)"
  by (induction c) (auto simp: entries_ok_def)

lemma entries_ok_butlast: "entries_ok client c \<Longrightarrow> entries_ok client (butlast c)"
  by (induction c) (auto simp: entries_ok_def)

lemma entries_ok_lookup:
  "entries_ok client c \<Longrightarrow> map_of c t = Some v \<Longrightarrow> entries_ok client [(t, v)]"
  by (induction c) (auto simp: entries_ok_def split: if_splits)

lemma normalize_topic_entries_ok:
  assumes "entries_ok client (cache st)"
  shows "entries_ok client (cache (snd (normalize_topic client create st t)))"
proof (cases "hashable t")
  case False
  with assms show ?thesis by (simp add: normalize_topic_def)
next
  case True
  show ?thesis
  proof (cases "map_of (cache st) t")
    case (Some v)
    have "entries_ok client ((t, v) # filter (\<lambda>e. fst e \<noteq> t) (cache st))"
      using entries_ok_lookup [OF assms Some] entries_ok_filter [OF assms]
      by (subst entries_ok_Cons) simp
    with True Some show ?thesis by (simp add: normalize_topic_def)
  next
    case None
    obtain v st' where body: "normalize_body client create st t = (v, st')"
      by (cases "normalize_body client create st t")
    have c: "cache st' = cache st" using normalize_body_cache [of client create st t] body by simp
    have v: "entries_ok client [(t, v)]" using normalize_body_value [of client t create st] body by simp
    have "entries_ok client ((t, v) # (if maxsize \<le> length (cache st) then butlast (cache st) else cache st))"
      using v assms entries_ok_butlast [OF assms] by (subst entries_ok_Cons) simp
    with True None body c show ?thesis by (auto simp: normalize_topic_def Let_def)
  qed
qed

lemma normalize_all_entries_ok:
  "entries_ok client (cache st) \<Longrightarrow> entries_ok client (cache (normalize_all client create st ts))"
  by (induction ts arbitrary: st) (simp_all add: normalize_topic_entries_ok)

lemma normalize_topic_result_ok:
  assumes "entries_ok client (cache st)" and "hashable t"
  shows "\<exists>v. fst (normalize_topic client create st t) = Returns v \<and> entries_ok client [(t, v)]"
proof (cases "map_of (cache st) t")
  case (Some v)
  with assms entries_ok_lookup [OF assms(1) Some] show ?thesis
    by (simp add: normalize_topic_def)
next
  case None
  obtain v st' where body: "normalize_body client create st t = (v, st')"
    by (cases "normalize_body client create st t")
  have v: "entries_ok client [(t, v)]" using normalize_body_value [of client t create st] body by simp
  with assms None body show ?thesis by (simp add: normalize_topic_def Let_def)
qed

lemma normalize_topic_calls_degenerate:
  assumes "\<not> client \<or> degenerate t"
  shows "remote_calls (snd (normalize_topic client create st t)) = remote_calls st"
  using assms
  by (auto simp: normalize_topic_def normalize_body_def degenerate_def Let_def
      split: option.splits topic.splits)

text \<open>
  C5, as amended. In a process whose client is initialised, whatever calls came before,
  every degenerate input that can be hashed (\<open>None\<close>, the empty string, an int) gets
  \<open>Unknown\<close>, without a remote call. In a process without a client the check of the client
  comes first (lines 64-66) and the input itself is returned.
\<close>

theorem degenerate_topic_unknown:
  assumes "hashable t" and "degenerate t"
  shows "fst (normalize_topic True create (normalize_all True create fresh ts) t) = Returns (TStr ''Unknown'')
       \<and> remote_calls (snd (normalize_topic True create (normalize_all True create fresh ts) t))
           = remote_calls (normalize_all True create fresh ts)
       \<and> fst (normalize_topic False create (normalize_all False create fresh ts) t) = Returns t"
proof -
  have ok: "entries_ok client (cache (normalize_all client create fresh ts))" for client
    by (rule normalize_all_entries_ok) (simp add: fresh_def entries_ok_def)
  from normalize_topic_result_ok [OF ok [of True] assms(1), of create]
  have "fst (normalize_topic True create (normalize_all True create fresh ts) t) = Returns (TStr ''Unknown'')"
    using assms(2) by (auto simp: entries_ok_def)
  moreover from normalize_topic_result_ok [OF ok [of False] assms(1), of create]
  have "fst (normalize_topic False create (normalize_all False create fresh ts) t) = Returns t"
    by (auto simp: entries_ok_def)
  moreover have "remote_calls (snd (normalize_topic True create (normalize_all True create fresh ts) t))
           = remote_calls (normalize_all True create fresh ts)"
    by (rule normalize_topic_calls_degenerate) (simp add: assms(2))
  ultimately show ?thesis by simp
qed

theorem degenerate_topic_unknown_witness:
  "fst (normalize_topic True example_create
          (normalize_all True example_create fresh [TStr ''python programming'', TNone]) (TStr []))
     = Returns (TStr ''Unknown'')
   \<and> fst (normalize_topic True example_create
          (normalize_all True example_create fresh [TStr ''python programming'', TNone]) (TInt 7))
     = Returns (TStr ''Unknown'')
   \<and> fst (normalize_topic False example_create
          (normalize_all False example_create fresh [TStr ''python programming'', TNone]) TNone)
     = Returns TNone"
  using degenerate_topic_unknown [of "TStr []" example_create "[TStr ''python programming'', TNone]"]
    degenerate_topic_unknown [of "TInt 7" example_create "[TStr ''python programming'', TNone]"]
    degenerate_topic_unknown [of TNone example_create "[TStr ''python programming'', TNone]"]
  by (simp add: degenerate_def)

text \<open>
  C5 as stated fails: without a client the empty string and \<open>None\<close> are returned as they
  are, not as \<open>Unknown\<close>.
\<close>

theorem degenerate_topic_unknown_counterexample:
  "fst (normalize_topic False example_create fresh (TStr [])) = Returns (TStr [])
   \<and> fst (normalize_topic False example_create fresh TNone) = Returns TNone
   \<and> Returns (TStr []) \<noteq> Returns (TStr ''Unknown'')
   \<and> Returns TNone \<noteq> Returns (TStr ''Unknown'')"
  by (simp add: normalize_topic_def normalize_body_def fresh_def)

text \<open>
  A list is refused by the cache before the body runs.
\<close>

lemma unhashable_topic_raises:
  "fst (normalize_topic client create st (TList l)) = Raises ''unhashable type''"
  by (simp add: normalize_topic_def)

section \<open>The topic normalizer: the cache\<close>




lemma normalize_topic_hit:
  assumes "hashable t" and "map_of (cache st) t = Some v"
  shows "normalize_topic client create st t =
           (Returns v, st\<lparr>cache := (t, v) # filter (\<lambda>e. fst e \<noteq> t) (cache st)\<rparr>)"
  using assms by (simp add: normalize_topic_def)

lemma normalize_topic_stores:
  assumes "hashable t"
  shows "\<exists>v. fst (normalize_topic client create st t) = Returns v
           \<and> map_of (cache (snd (normalize_topic client create st t))) t = Some v"
proof (cases "map_of (cache st) t")
  case (Some v)
  with assms show ?thesis by (simp add: normalize_topic_hit)
next
  case None
  with assms show ?thesis
    by (cases "normalize_body client create st t") (simp add: normalize_topic_def Let_def)
qed














section \<open>Loading and appending\<close>

lemma index_of_Timestamp: "index_of columns_expected ''Timestamp'' = Some 0"
  by (simp add: columns_expected_def)

lemma convert_column_append:
  "convert_column L i (xs @ ys) =
     (case convert_column L i xs of
        Inl e \<Rightarrow> Inl e
      | Inr xs' \<Rightarrow> (case convert_column L i ys of Inl e \<Rightarrow> Inl e | Inr ys' \<Rightarrow> Inr (xs' @ ys')))"
  by (induction xs) (auto split: sum.splits)

lemma convert_column_fails:
  assumes "r \<in> set rs" and "convert_cell L (if i < length r then r ! i else NaN) = Inl e"
  shows "\<exists>e. convert_column L i rs = Inl e"
  using assms by (induction rs) (auto split: sum.splits if_splits)

lemma convert_column_parses:
  "list_all (parses L) body \<Longrightarrow> \<exists>rs. convert_column L 0 (map (map (read_cell L)) body) = Inr rs"
proof (induction body)
  case Nil
  then show ?case by simp
next
  case (Cons r body)
  then obtain rs where rs: "convert_column L 0 (map (map (read_cell L)) body) = Inr rs" by auto
  from Cons.prems have r: "parses L r" by simp
  then have "r \<noteq> []" by (auto simp: parses_def columns_expected_def)
  then have "map (read_cell L) r ! 0 = read_cell L (hd r)" by (cases r) simp_all
  with r rs show ?case
    by (cases "read_cell L (hd r)") (auto simp: parses_def columns_expected_def)
qed

lemma read_csv_rectangular:
  assumes "list_all (\<lambda>r. length r = length h) body"
  shows "read_csv L (h # body) = Inr \<lparr>columns = h, rows = map (map (read_cell L)) body\<rparr>"
proof -
  have "\<not> list_ex (\<lambda>r. length h < length r) body"
    using assms by (induction body) auto
  moreover have "map (\<lambda>r. map (read_cell L) r @ replicate (length h - length r) NaN) body
      = map (map (read_cell L)) body"
    using assms by (induction body) auto
  ultimately show ?thesis by (simp add: read_csv_def)
qed

lemma parses_rectangular: "list_all (parses L) body \<Longrightarrow> list_all (\<lambda>r. length r = length columns_expected) body"
  by (induction body) (auto simp: parses_def)

text \<open>
  C4. The specification expects the rows with a parseable timestamp to be kept and only the others
  dropped. In \<open>load_activity_data\<close> the conversion runs on the whole column and raises at
  the first text that does not parse; the \<open>except Exception\<close> branch then returns the empty
  frame. So a single line whose timestamp is neither missing nor a date makes the load
  return no row at all, whatever the other lines hold. No exception reaches the caller:
  the function returns a frame on every file.
\<close>

theorem unparseable_timestamp_empties_load:
  assumes "r \<in> set body" and "r \<noteq> []"
    and "hd r \<noteq> []" and "\<not> na_marker L (hd r)"
    and "to_datetime L (hd r) = None"
  shows "load_activity_data L (Lines (columns_expected # body)) = empty_frame"
proof (cases "list_ex (\<lambda>r. length columns_expected < length r) body")
  case True
  then show ?thesis
    by (simp add: load_activity_data_def read_and_convert_def read_csv_def)
next
  case False
  let ?pad = "\<lambda>r. map (read_cell L) r @ replicate (length columns_expected - length r) NaN"
  have read: "read_csv L (columns_expected # body) =
      Inr \<lparr>columns = columns_expected, rows = map ?pad body\<rparr>"
    using False by (simp add: read_csv_def)
  have "?pad r \<in> set (map ?pad body)" using assms(1) by simp
  moreover have "0 < length (?pad r)" using assms(2) by simp
  moreover have "?pad r ! 0 = read_cell L (hd r)"
    using assms(2) by (cases r) simp_all
  moreover have "convert_cell L (read_cell L (hd r)) = Inl DateParseError"
    using assms(3,4,5) by (simp add: read_cell_def)
  ultimately obtain e where "convert_column L 0 (map ?pad body) = Inl e"
    using convert_column_fails [of "?pad r" "map ?pad body" L 0 DateParseError] by auto
  with read show ?thesis
    by (simp add: load_activity_data_def read_and_convert_def index_of_Timestamp)
qed

theorem unparseable_timestamp_empties_load_witness:
  "rows (load_activity_data example_lib example_log_bad) = []
   \<and> columns (load_activity_data example_lib example_log_bad) = columns_expected
   \<and> rows (load_activity_data example_lib example_log) =
       [[Instant 0, Text ''Editor'', Text ''Writing code'', Text ''Coding'', Text ''Editing a file'',
         Text ''screenshot_20240501_090000.png'']]"
proof -
  let ?bad = "[''yesterday at noon'', ''Browser'', ''Reading the news'', ''News'', ''Reading'',
             ''screenshot_20240501_090200.png'']"
  have "load_activity_data example_lib example_log_bad = empty_frame"
    unfolding example_log_bad_def
    by (rule unparseable_timestamp_empties_load [where r = ?bad]) (simp_all add: example_lib_def)
  moreover have "rows (load_activity_data example_lib example_log) =
       [[Instant 0, Text ''Editor'', Text ''Writing code'', Text ''Coding'', Text ''Editing a file'',
         Text ''screenshot_20240501_090000.png'']]"
    by (simp add: load_activity_data_def read_and_convert_def read_csv_def example_log_def
        columns_expected_def read_cell_def example_lib_def formats_agree_def column_texts_def
        List.map_filter_simps)
  ultimately show ?thesis by (simp add: empty_frame_def)
qed

text \<open>
  On lines that parse, the texts that the conversion sees in the \<open>Timestamp\<close> column are
  the timestamps of the lines, so a well-formed log loads as its lines, converted.
\<close>

lemma column_texts_read:
  "list_all (\<lambda>r. r \<noteq> []) body \<Longrightarrow>
   column_texts 0 (map (map (read_cell L)) body) = timestamp_texts L body"
proof (induction body)
  case Nil
  then show ?case by (simp add: column_texts_def timestamp_texts_def List.map_filter_simps)
next
  case (Cons r body)
  then have r: "r \<noteq> []" and IH: "column_texts 0 (map (map (read_cell L)) body) = timestamp_texts L body"
    by simp_all
  have "map (read_cell L) r ! 0 = read_cell L (hd r)" using r by (cases r) simp_all
  moreover have "cell_source (read_cell L s) = (if read_cell L s = NaN then None else Some s)" for s
    by (simp add: read_cell_def)
  ultimately show ?case
    using r IH by (simp add: column_texts_def timestamp_texts_def List.map_filter_simps)
qed

lemma parses_nonempty: "list_all (parses L) body \<Longrightarrow> list_all (\<lambda>r. r \<noteq> []) body"
  by (induction body) (auto simp: parses_def columns_expected_def)

lemma load_well_formed:
  assumes "list_all (parses L) body" and "formats_agree L (timestamp_texts L body)"
  shows "\<exists>rs. convert_column L 0 (map (map (read_cell L)) body) = Inr rs
           \<and> load_activity_data L (Lines (columns_expected # body)) = \<lparr>columns = columns_expected, rows = rs\<rparr>"
proof -
  obtain rs where rs: "convert_column L 0 (map (map (read_cell L)) body) = Inr rs"
    using convert_column_parses [OF assms(1)] by blast
  have "read_csv L (columns_expected # body) =
      Inr \<lparr>columns = columns_expected, rows = map (map (read_cell L)) body\<rparr>"
    by (rule read_csv_rectangular [OF parses_rectangular [OF assms(1)]])
  with rs assms(2) show ?thesis
    by (simp add: load_activity_data_def read_and_convert_def index_of_Timestamp
        column_texts_read [OF parses_nonempty [OF assms(1)]])
qed

lemma activity_row_parses:
  assumes "to_datetime L (str_of_datetime L t) = Some t"
    and "read_cell L (str_of_datetime L t) = Text (str_of_datetime L t)"
  shows "parses L (activity_row L t app crisp topic short path)"
  using assms by (simp add: parses_def activity_row_def columns_expected_def)

lemma convert_activity_row:
  assumes "to_datetime L (str_of_datetime L t) = Some t"
    and "read_cell L (str_of_datetime L t) = Text (str_of_datetime L t)"
  shows "convert_column L 0 [map (read_cell L) (activity_row L t app crisp topic short path)] =
     Inr [[Instant t, read_cell L app, read_cell L (cell_text crisp), read_cell L (cell_text topic),
           read_cell L (cell_text short), read_cell L (screenshot_cell path)]]"
  using assms by (simp add: activity_row_def)

lemma timestamp_texts_append_row:
  assumes "read_cell L (str_of_datetime L t) = Text (str_of_datetime L t)"
  shows "timestamp_texts L (body @ [activity_row L t app crisp topic short path]) =
           timestamp_texts L body @ [str_of_datetime L t]"
  using assms by (simp add: timestamp_texts_def activity_row_def)

text \<open>
  C7, as amended. Let the log be missing or well formed, the write go through, and the
  timestamp be rendered as a text that parses back to it, that the reader keeps as a text,
  and that goes with the timestamps already in the log as one column (for pandas 2: the
  same format, so no microseconds in one and not in the other). Then loading after
  \<open>save_activity\<close> gives exactly one row more than loading before, and the new row is the
  last one: its \<open>Timestamp\<close> is the instant, and every other field is the written text as
  the reader reads it. That is the text itself when it is not empty, no marker of a missing
  value and no number or boolean literal; it is missing when the text is empty or such a
  marker; a literal is read as the number or boolean or as the text, depending on the
  other cells of its column, so it need not come back as written. \<open>ScreenshotFile\<close> is
  written as the base name of the path; a \<open>None\<close> path is written as the empty cell and
  read back as missing, never as the text \<open>None\<close>.
\<close>

theorem append_then_load_adds_one_row:
  assumes wf: "well_formed_log L file"
    and ts: "to_datetime L (str_of_datetime L t) = Some t"
    and plain: "read_cell L (str_of_datetime L t) = Text (str_of_datetime L t)"
    and fmt: "one_format L (timestamp_texts L (log_lines file) @ [str_of_datetime L t])"
  shows "length (rows (load_activity_data L (save_activity L True t app crisp topic short path file))) =
           length (rows (load_activity_data L file)) + 1
       \<and> last (rows (load_activity_data L (save_activity L True t app crisp topic short path file))) =
           [Instant t, read_cell L app, read_cell L (cell_text crisp), read_cell L (cell_text topic),
            read_cell L (cell_text short), read_cell L (screenshot_cell path)]
       \<and> (\<forall>s. s \<noteq> [] \<and> \<not> na_marker L s \<and> \<not> literal L s \<longrightarrow> read_cell L s = Text s)
       \<and> (\<forall>s. s = [] \<or> na_marker L s \<longrightarrow> read_cell L s = NaN)
       \<and> read_cell L (screenshot_cell None) = NaN"
proof -
  let ?row = "activity_row L t app crisp topic short path"
  let ?new = "[Instant t, read_cell L app, read_cell L (cell_text crisp), read_cell L (cell_text topic),
               read_cell L (cell_text short), read_cell L (screenshot_cell path)]"
  have new: "convert_column L 0 [map (read_cell L) ?row] = Inr [?new]"
    by (rule convert_activity_row [OF ts plain])
  have row: "parses L ?row" by (rule activity_row_parses [OF ts plain])
  have cells: "(\<forall>s. s \<noteq> [] \<and> \<not> na_marker L s \<and> \<not> literal L s \<longrightarrow> read_cell L s = Text s)
       \<and> (\<forall>s. s = [] \<or> na_marker L s \<longrightarrow> read_cell L s = NaN)
       \<and> read_cell L (screenshot_cell None) = NaN"
    by (simp add: read_cell_def screenshot_cell_def)
  have "\<exists>rs. rows (load_activity_data L file) = rs
        \<and> rows (load_activity_data L (save_activity L True t app crisp topic short path file)) = rs @ [?new]"
  proof (cases "file")
    case Missing
    have "formats_agree L (timestamp_texts L [?row])"
      using fmt Missing timestamp_texts_append_row [OF plain, of "[]"]
      by (simp add: formats_agree_def log_lines_def timestamp_texts_def)
    then have "load_activity_data L (Lines (columns_expected # [?row])) = \<lparr>columns = columns_expected, rows = [?new]\<rparr>"
      using load_well_formed [of L "[?row]"] row new by simp
    with Missing show ?thesis
      by (simp add: save_activity_def Let_def load_activity_data_def empty_frame_def)
  next
    case (Lines ls)
    with wf obtain body where ls: "ls = columns_expected # body" and body: "list_all (parses L) body"
      and agree: "formats_agree L (timestamp_texts L body)"
      by (cases ls) (auto simp: well_formed_log_def)
    obtain rs where rs: "convert_column L 0 (map (map (read_cell L)) body) = Inr rs"
      and old: "load_activity_data L (Lines (columns_expected # body)) = \<lparr>columns = columns_expected, rows = rs\<rparr>"
      using load_well_formed [OF body agree] by blast
    have all: "list_all (parses L) (body @ [?row])" using body row by simp
    have agree': "formats_agree L (timestamp_texts L (body @ [?row]))"
      using fmt Lines ls timestamp_texts_append_row [OF plain]
      by (simp add: formats_agree_def log_lines_def)
    have "convert_column L 0 (map (map (read_cell L)) (body @ [?row])) = Inr (rs @ [?new])"
      using rs new by (simp add: convert_column_append)
    then have "load_activity_data L (Lines (columns_expected # body @ [?row])) =
        \<lparr>columns = columns_expected, rows = rs @ [?new]\<rparr>"
      using load_well_formed [OF all agree'] by auto
    with Lines ls old show ?thesis
      by (simp add: save_activity_def Let_def)
  qed
  then have "length (rows (load_activity_data L (save_activity L True t app crisp topic short path file))) =
           length (rows (load_activity_data L file)) + 1"
    and "last (rows (load_activity_data L (save_activity L True t app crisp topic short path file))) = ?new"
    by auto
  with cells show ?thesis by simp
qed

theorem append_then_load_adds_one_row_witness:
  "length (rows (load_activity_data example_lib
           (save_activity example_lib True 1 ''Browser'' (PStr ''Reading, slowly'') (PStr ''2048'')
              (PStr ''NA'') None example_log))) = 2
   \<and> last (rows (load_activity_data example_lib
           (save_activity example_lib True 1 ''Browser'' (PStr ''Reading, slowly'') (PStr ''2048'')
              (PStr ''NA'') None example_log))) =
      [Instant 1, Text ''Browser'', Text ''Reading, slowly'', Inferred ''2048'', NaN, NaN]
   \<and> length (rows (load_activity_data example_lib
           (save_activity example_lib True 0 ''Editor'' (PStr ''Writing code'') (PStr ''Coding'')
              (PStr ''Editing a file'') (Some example_path) Missing))) = 1"
proof -
  have wf: "well_formed_log example_lib example_log"
    by (simp add: well_formed_log_def example_log_def parses_def columns_expected_def read_cell_def
        example_lib_def formats_agree_def timestamp_texts_def)
  have wf': "well_formed_log example_lib Missing" by (simp add: well_formed_log_def)
  have ts: "to_datetime example_lib (str_of_datetime example_lib 1) = Some 1"
    "to_datetime example_lib (str_of_datetime example_lib 0) = Some 0"
    and plain: "read_cell example_lib (str_of_datetime example_lib 1) = Text (str_of_datetime example_lib 1)"
    "read_cell example_lib (str_of_datetime example_lib 0) = Text (str_of_datetime example_lib 0)"
    by (simp_all add: example_lib_def read_cell_def)
  have fmt: "one_format example_lib
      (timestamp_texts example_lib (log_lines example_log) @ [str_of_datetime example_lib 1])"
    by (simp add: example_lib_def log_lines_def example_log_def timestamp_texts_def read_cell_def
        columns_expected_def)
  have fmt': "one_format example_lib
      (timestamp_texts example_lib (log_lines Missing) @ [str_of_datetime example_lib 0])"
    by (simp add: example_lib_def log_lines_def timestamp_texts_def)
  have old: "length (rows (load_activity_data example_lib example_log)) = 1"
    by (simp add: load_activity_data_def read_and_convert_def read_csv_def example_log_def
        columns_expected_def read_cell_def example_lib_def formats_agree_def column_texts_def
        List.map_filter_simps)
  have old': "length (rows (load_activity_data example_lib Missing)) = 0"
    by (simp add: load_activity_data_def empty_frame_def)
  from append_then_load_adds_one_row [OF wf ts(1) plain(1) fmt, of "''Browser''" "PStr ''Reading, slowly''"
      "PStr ''2048''" "PStr ''NA''" None]
    append_then_load_adds_one_row [OF wf' ts(2) plain(2) fmt', of "''Editor''" "PStr ''Writing code''"
      "PStr ''Coding''" "PStr ''Editing a file''" "Some example_path"]
  show ?thesis
    unfolding old old' by (simp add: read_cell_def screenshot_cell_def example_lib_def)
qed

text \<open>
  The timestamp has to go with those of the log. On the example log, whose only timestamp
  has no microseconds, a row with microseconds parses on its own and yet makes the
  conversion of the column raise: the load after the append has no row.
\<close>

lemma append_other_format_loads_nothing:
  "well_formed_log example_lib_micro example_log
   \<and> to_datetime example_lib_micro (str_of_datetime example_lib_micro 1) = Some 1
   \<and> length (rows (load_activity_data example_lib_micro example_log)) = 1
   \<and> rows (load_activity_data example_lib_micro
        (save_activity example_lib_micro True 1 ''Browser'' (PStr ''Reading the news'') (PStr ''News'')
           (PStr ''Reading'') None example_log)) = []"
  by (simp add: load_activity_data_def read_and_convert_def read_csv_def save_activity_def
      activity_row_def empty_frame_def example_lib_micro_def example_lib_def Let_def example_log_def
      columns_expected_def read_cell_def screenshot_cell_def formats_agree_def well_formed_log_def
      parses_def timestamp_texts_def column_texts_def List.map_filter_simps)

text \<open>
  C7 as stated fails. On a file that exists but has no line, \<open>save_activity\<close> appends the
  row without a header, the reader takes the row for the header, and both loads have no
  row. On the example log, an empty window title is read back as missing, and the
  screenshot path as its base name.
\<close>

theorem append_then_load_counterexample:
  "rows (load_activity_data example_lib (Lines [])) = []
   \<and> rows (load_activity_data example_lib
        (save_activity example_lib True 1 ''Browser'' (PStr ''Reading the news'') (PStr ''News'')
           (PStr ''Reading'') (Some example_path) (Lines []))) = []
   \<and> length (rows (load_activity_data example_lib
        (save_activity example_lib True 1 ''Browser'' (PStr ''Reading the news'') (PStr ''News'')
           (PStr ''Reading'') (Some example_path) (Lines []))))
      \<noteq> length (rows (load_activity_data example_lib (Lines []))) + 1
   \<and> last (rows (load_activity_data example_lib
        (save_activity example_lib True 1 [] (PStr ''Reading the news'') (PStr ''News'')
           (PStr ''Reading'') (Some example_path) example_log))) =
       [Instant 1, NaN, Text ''Reading the news'', Text ''News'', Text ''Reading'',
        Text ''screenshot_20240501_090200.png'']"
proof -
  have "example_path \<noteq> []" by (simp add: example_path_def)
  then show ?thesis
    using basename_example
    by (simp add: load_activity_data_def read_and_convert_def read_csv_def save_activity_def
        activity_row_def empty_frame_def example_lib_def Let_def example_log_def
        columns_expected_def read_cell_def screenshot_cell_def formats_agree_def
        column_texts_def List.map_filter_simps)
qed

section \<open>The response parser: code fences\<close>

lemma fence_chars_not_space: "c \<in> set fence_json \<Longrightarrow> c \<notin> set whitespace"
  by (auto simp: fence_json_def fence_def whitespace_def)

lemma fence_subset: "set fence \<subseteq> set fence_json"
  by (auto simp: fence_json_def)

text \<open>
  C8. The specification expects a fenced response to be classified like its content. The cleaning
  calls \<open>strip\<close> with the marker as its argument, which removes characters of the set
  \<open>{`, j, s, o, n}\<close> rather than the marker: around the content \<open>null\<close> it also removes the
  \<open>n\<close>. The fenced text is then not JSON and gives the \<open>JSONDecodeError\<close> dict with raw
  content \<open>ull\<close>, while the content alone parses to \<open>None\<close>, on which the key check raises
  and \<open>analyze_screenshot\<close> returns \<open>None\<close>.
\<close>

theorem fenced_null_classified_differently:
  "parse_response example_lib (fence_json @ ''null'' @ fence) = Some (error_dict ''JSONDecodeError'' ''ull'')
   \<and> parse_response example_lib ''null'' = None
   \<and> analyze_screenshot_body example_lib True True (Returns (fence_json @ ''null'' @ fence))
       \<noteq> analyze_screenshot_body example_lib True True (Returns ''null'')"
  by (simp add: analyze_screenshot_body_def parse_response_def clean_fences_def strip_def
      strip_chars_def fence_json_def fence_def whitespace_def example_lib_def error_dict_def
      example_response_def quoted_def)

text \<open>
  The usual shape, a newline after the opening marker and before the closing one, is
  cleaned exactly: the example response parses to the same result fenced and bare.
\<close>

lemma fenced_response_parses:
  "parse_response example_lib (fence_json @ [CHR 0x0A] @ example_response @ [CHR 0x0A] @ fence)
     = Some (PyDict example_result)
   \<and> parse_response example_lib example_response = Some (PyDict example_result)"
  by (simp add: parse_response_def clean_fences_def strip_def
      strip_chars_def fence_json_def fence_def whitespace_def example_lib_def error_dict_def
      example_response_def quoted_def example_result_def)

text \<open>
  The same fenced response followed by a newline: the closing marker is not at the end, so
  \<open>strip\<close> leaves it in place and the text no longer parses.
\<close>

lemma fenced_response_trailing_newline:
  "parse_response example_lib (fence_json @ [CHR 0x0A] @ example_response @ [CHR 0x0A] @ fence @ [CHR 0x0A])
     = Some (error_dict ''JSONDecodeError'' (example_response @ [CHR 0x0A] @ fence))"
  by (simp add: parse_response_def clean_fences_def strip_def
      strip_chars_def fence_json_def fence_def whitespace_def example_lib_def error_dict_def
      example_response_def quoted_def example_result_def)

text \<open>
  Where the cleaning is exact: the content has no whitespace at its ends and is separated
  from the markers by whitespace, or does not begin or end with a character of the marker.
\<close>

lemma startswith_append: "startswith (p @ s) p"
  by (induction p) simp_all

lemma startswith_shorter: "startswith s (p @ q) \<Longrightarrow> startswith s p"
  by (induction s p rule: startswith.induct) auto

lemma dropWhile_stops: "m \<noteq> [] \<Longrightarrow> \<not> P (hd m) \<Longrightarrow> dropWhile P m = m"
  by (cases m) simp_all

lemma strip_chars_core:
  assumes "set l \<subseteq> set chars" and "set r \<subseteq> set chars"
    and "m \<noteq> []" and "hd m \<notin> set chars" and "last m \<notin> set chars"
  shows "strip_chars chars (l @ m @ r) = m"
proof -
  have "dropWhile (\<lambda>c. c \<in> set chars) (l @ m @ r) = dropWhile (\<lambda>c. c \<in> set chars) (m @ r)"
    using assms(1) by (intro dropWhile_append2) auto
  also have "\<dots> = m @ r"
    using assms(3,4) by (intro dropWhile_stops) simp_all
  finally have left: "dropWhile (\<lambda>c. c \<in> set chars) (l @ m @ r) = m @ r" .
  have "dropWhile (\<lambda>c. c \<in> set chars) (rev r @ rev m) = dropWhile (\<lambda>c. c \<in> set chars) (rev m)"
    using assms(2) by (intro dropWhile_append2) auto
  also have "\<dots> = rev m"
    using assms(3,5) by (intro dropWhile_stops) (simp_all add: hd_rev)
  finally show ?thesis
    by (simp add: strip_chars_def left)
qed

lemma clean_fences_wrapped:
  assumes ws: "set ws1 \<subseteq> set whitespace" "set ws2 \<subseteq> set whitespace"
    and t: "t \<noteq> []" "hd t \<notin> set whitespace" "last t \<notin> set whitespace"
    and sep: "ws1 \<noteq> [] \<or> hd t \<notin> set fence_json" "ws2 \<noteq> [] \<or> last t \<notin> set fence_json"
  shows "clean_fences (fence_json @ ws1 @ t @ ws2 @ fence) = t"
proof -
  let ?m = "ws1 @ t @ ws2"
  have m: "?m \<noteq> []" using t by simp
  have "hd ?m = (if ws1 = [] then hd t else hd ws1)" using t by (simp add: hd_append)
  then have hd: "hd ?m \<notin> set fence_json"
    using sep(1) ws(1) fence_chars_not_space [of "hd ws1"]
    by (cases "ws1 = []") (auto simp: subset_iff)
  have "last ?m = (if ws2 = [] then last t else last ws2)" using t by simp
  then have last: "last ?m \<notin> set fence_json"
    using sep(2) ws(2) fence_chars_not_space [of "last ws2"]
    by (cases "ws2 = []") (auto simp: subset_iff)
  have "strip_chars fence_json (fence_json @ ?m @ fence) = ?m"
    by (rule strip_chars_core [OF _ fence_subset m hd last]) simp
  moreover have "strip ?m = t"
    unfolding strip_def by (rule strip_chars_core [OF ws t])
  moreover have "startswith (fence_json @ ws1 @ t @ ws2 @ fence) fence_json"
    by (rule startswith_append)
  ultimately show ?thesis by (simp add: clean_fences_def)
qed

lemma fenced_parse_same:
  assumes "set ws1 \<subseteq> set whitespace" "set ws2 \<subseteq> set whitespace"
    and "t \<noteq> []" "hd t \<notin> set whitespace" "last t \<notin> set whitespace"
    and "ws1 \<noteq> [] \<or> hd t \<notin> set fence_json" "ws2 \<noteq> [] \<or> last t \<notin> set fence_json"
    and "\<not> startswith t fence"
  shows "parse_response L (fence_json @ ws1 @ t @ ws2 @ fence) = parse_response L t"
proof -
  have "\<not> startswith t fence_json"
  proof
    assume "startswith t fence_json"
    then have "startswith t fence"
      unfolding fence_json_def by (rule startswith_shorter)
    with assms(8) show False by simp
  qed
  then have "clean_fences t = t" using assms(8) by (simp add: clean_fences_def)
  with clean_fences_wrapped [OF assms(1-7)] show ?thesis by (simp add: parse_response_def)
qed

section \<open>The topic normalizer: a later call\<close>










end
